theory Spec2Isabelle
  imports Complex_Main "HOL-Library.AList"
begin

section \<open>Schema model\<close>

text \<open>
  A select option of the record form is either a bare display name or an object with
  optional \<open>id\<close>, \<open>label\<close> and \<open>color\<close>. Option sets are an ordered list of names or an
  ordered key/value record. JavaScript objects are modelled as association lists in
  \<open>Object.entries\<close> order; their keys are pairwise distinct.
\<close>

datatype select_option_value =
  OptionLabel string
| OptionObject (opt_id: "string option") (opt_label: "string option") (opt_color: "string option")

datatype select_options =
  OptionNames "string list"
| OptionRecord "(string \<times> select_option_value) list"

record status_group =
  sg_id :: "string option"
  sg_label :: string
  sg_color :: string
  sg_options :: select_options

type_synonym status_options = "(string \<times> status_group) list"

text \<open>The \<open>type\<close> discriminator of a field.\<close>

datatype field_type =
  T_title | T_rich_text | T_number | T_select | T_multi_select | T_status | T_date
| T_people | T_files | T_checkbox | T_url | T_email | T_phone_number | T_formula
| T_relation | T_rollup | T_created_time | T_created_by | T_last_edited_time
| T_last_edited_by | T_unique_id


text \<open>The type-specific part of a field (the members of \<open>Schema.Field\<close>).\<close>

datatype field_kind =
  Title
| RichText
| Number (format: "string option")
| Select (options: "select_options option")
| MultiSelect (options: "select_options option")
| Status (groups: "status_options option")
| Date
| People
| Files
| Checkbox
| Url
| Email
| PhoneNumber
| Formula (expression: string)
| RelationSingle (data_source_id: string)
| RelationDual (data_source_id: string) (synced_property_id: string)
    (synced_property_name: string)
| Rollup (relation_property: string) (rollup_property: string) (rollup_function: string)
| CreatedTime
| CreatedBy
| LastEditedTime
| LastEditedBy
| UniqueId (prefix: "string option")

fun kind_type :: "field_kind \<Rightarrow> field_type" where
  "kind_type Title = T_title"
| "kind_type RichText = T_rich_text"
| "kind_type (Number _) = T_number"
| "kind_type (Select _) = T_select"
| "kind_type (MultiSelect _) = T_multi_select"
| "kind_type (Status _) = T_status"
| "kind_type Date = T_date"
| "kind_type People = T_people"
| "kind_type Files = T_files"
| "kind_type Checkbox = T_checkbox"
| "kind_type Url = T_url"
| "kind_type Email = T_email"
| "kind_type PhoneNumber = T_phone_number"
| "kind_type (Formula _) = T_formula"
| "kind_type (RelationSingle _) = T_relation"
| "kind_type (RelationDual _ _ _) = T_relation"
| "kind_type (Rollup _ _ _) = T_rollup"
| "kind_type CreatedTime = T_created_time"
| "kind_type CreatedBy = T_created_by"
| "kind_type LastEditedTime = T_last_edited_time"
| "kind_type LastEditedBy = T_last_edited_by"
| "kind_type (UniqueId _) = T_unique_id"

record field =
  label :: string
  fid :: "string option"
  kind :: field_kind

definition ftype :: "field \<Rightarrow> field_type" where
  "ftype f = kind_type (kind f)"

text \<open>
  \<open>if (field.id)\<close>: an optional string is truthy when it is present and not empty.
\<close>

definition truthy_str :: "string option \<Rightarrow> bool" where
  "truthy_str s = (case s of None \<Rightarrow> False | Some x \<Rightarrow> x \<noteq> [])"

text \<open>A schema definition: local key to field, in \<open>Object.entries\<close> order.\<close>

type_synonym schema = "(string \<times> field) list"


text \<open>
  Reading \<open>object[key]\<close> on a plain object finds the object's own properties and, for a
  key that the object does not have, the members that every plain object inherits from
  \<open>Object.prototype\<close>: eleven functions and, under \<open>__proto__\<close>, the prototype itself.
  None of them has a \<open>type\<close>, \<open>label\<close> or \<open>id\<close> member, and all of them are truthy. A
  schema and a data record are plain objects.
\<close>

definition OBJECT_PROTOTYPE :: "string list" where
  "OBJECT_PROTOTYPE =
     [''constructor'', ''__defineGetter__'', ''__defineSetter__'', ''hasOwnProperty'',
      ''__lookupGetter__'', ''__lookupSetter__'', ''isPrototypeOf'',
      ''propertyIsEnumerable'', ''toString'', ''valueOf'', ''__proto__'',
      ''toLocaleString'']"

datatype 'a member = Own 'a | Inherited

definition object_get :: "(string \<rightharpoonup> 'a) \<Rightarrow> string \<Rightarrow> 'a member option" where
  "object_get obj k =
     (case obj k of
        Some x \<Rightarrow> Some (Own x)
      | None \<Rightarrow> if k \<in> set OBJECT_PROTOTYPE then Some Inherited else None)"

text \<open>\<open>schema[key]\<close> for a key that need not be one of the schema's own.\<close>

definition schema_lookup :: "schema \<Rightarrow> string \<Rightarrow> field member option" where
  "schema_lookup s k = object_get (map_of s) k"

text \<open>Thrown values: \<open>new Error(message)\<close> and the runtime's \<open>TypeError\<close>.\<close>

datatype error = Error string | TypeError

datatype diff =
  Added (d_key: string) (d_field: field)
| Removed (d_key: string) (d_field: field)
| Modified (d_key: string) (d_fromKey: "string option") (d_id: "string option")
    (d_from: field) (d_to: field) (d_changes: "string list")

section \<open>diffSchema\<close>

definition SINGLETON_TYPES :: "field_type set" where
  "SINGLETON_TYPES = {T_title}"

text \<open>
  The four lookup maps built by the first loop of \<open>diffSchema\<close>. A later entry with the
  same map key replaces an earlier one (\<open>Map.set\<close>).
\<close>

definition fromByKey :: "schema \<Rightarrow> (string \<rightharpoonup> field)" where
  "fromByKey frm = fold (\<lambda>(key, field) m. m(key \<mapsto> field)) frm Map.empty"

definition fromById :: "schema \<Rightarrow> (string \<rightharpoonup> string \<times> field)" where
  "fromById frm =
     fold (\<lambda>(key, field) m.
        if truthy_str (fid field) then m(the (fid field) \<mapsto> (key, field)) else m)
       frm Map.empty"

definition fromByLabel :: "schema \<Rightarrow> (string \<rightharpoonup> string \<times> field)" where
  "fromByLabel frm = fold (\<lambda>(key, field) m. m(label field \<mapsto> (key, field))) frm Map.empty"

definition fromByType :: "schema \<Rightarrow> (field_type \<rightharpoonup> string \<times> field)" where
  "fromByType frm =
     fold (\<lambda>(key, field) m.
        if ftype field \<in> SINGLETON_TYPES then m(ftype field \<mapsto> (key, field)) else m)
       frm Map.empty"

text \<open>
  A looked-up candidate is returned only when its key has not been processed.
\<close>

definition unprocessed :: "string set \<Rightarrow> (string \<times> field) option \<Rightarrow> (string \<times> field) option" where
  "unprocessed processedFromKeys m =
     (case m of
        None \<Rightarrow> None
      | Some (k, f) \<Rightarrow> if k \<in> processedFromKeys then None else Some (k, f))"

definition findMatch ::
  "schema \<Rightarrow> string set \<Rightarrow> string \<Rightarrow> field \<Rightarrow> (string \<times> field) option" where
  "findMatch frm processedFromKeys toKey toField =
     (case (if truthy_str (fid toField)
            then unprocessed processedFromKeys (fromById frm (the (fid toField)))
            else None) of
        Some m \<Rightarrow> Some m
      | None \<Rightarrow>
     (case unprocessed processedFromKeys
             (map_option (\<lambda>f. (toKey, f)) (fromByKey frm toKey)) of
        Some m \<Rightarrow> Some m
      | None \<Rightarrow>
     (case unprocessed processedFromKeys (fromByLabel frm (label toField)) of
        Some m \<Rightarrow> Some m
      | None \<Rightarrow>
     (if ftype toField \<in> SINGLETON_TYPES
      then unprocessed processedFromKeys (fromByType frm (ftype toField))
      else None))))"

text \<open>The change set of a matched pair, in the order key, label, type.\<close>

definition compute_changes :: "string \<Rightarrow> field \<Rightarrow> string \<Rightarrow> field \<Rightarrow> string list" where
  "compute_changes fromKey fromField toKey toField =
     (if fromKey \<noteq> toKey then [''key''] else []) @
     (if label fromField \<noteq> label toField then [''label''] else []) @
     (if ftype fromField \<noteq> ftype toField then [''type''] else [])"

text \<open>
  The entry pushed for a matched pair: nothing when there is no change; otherwise a
  \<open>modified\<close> entry whose \<open>id\<close> is set when the \<open>from\<close> field has a truthy id and whose
  \<open>fromKey\<close> is set when the keys differ.
\<close>

definition modified_entry :: "string \<Rightarrow> field \<Rightarrow> string \<Rightarrow> field \<Rightarrow> diff list" where
  "modified_entry fromKey fromField toKey toField =
     (let changes = compute_changes fromKey fromField toKey toField in
      if length changes > 0
      then [Modified toKey
              (if fromKey \<noteq> toKey then Some fromKey else None)
              (if truthy_str (fid fromField) then fid fromField else None)
              fromField toField changes]
      else [])"

text \<open>
  The loop over the entries of \<open>to\<close>; the state is the list of diffs and the set of
  processed \<open>from\<close> keys.
\<close>

fun process_to :: "schema \<Rightarrow> schema \<Rightarrow> diff list \<times> string set \<Rightarrow> diff list \<times> string set" where
  "process_to frm [] st = st"
| "process_to frm ((toKey, toField) # rest) (acc, processedFromKeys) =
     (case findMatch frm processedFromKeys toKey toField of
        None \<Rightarrow> process_to frm rest (acc @ [Added toKey toField], processedFromKeys)
      | Some (fromKey, fromField) \<Rightarrow>
          process_to frm rest
            (acc @ modified_entry fromKey fromField toKey toField,
             insert fromKey processedFromKeys))"

text \<open>The final loop: every \<open>from\<close> entry whose key was not processed is removed.\<close>

definition collect_removed :: "schema \<Rightarrow> string set \<Rightarrow> diff list" where
  "collect_removed frm processedFromKeys =
     map (\<lambda>(key, field). Removed key field)
       (filter (\<lambda>(key, field). key \<notin> processedFromKeys) frm)"

definition diffSchema :: "schema \<Rightarrow> schema \<Rightarrow> diff list" where
  "diffSchema frm to =
     (let (acc, processedFromKeys) = process_to frm to ([], {})
      in acc @ collect_removed frm processedFromKeys)"

text \<open>
  Three list functions used to state the claims about \<open>diffSchema\<close>: the last entry of
  a list under a key function (what a \<open>Map\<close> filled in list order holds), the key of
  an entry in the id map and in the singleton-type map, and the truthy ids of a schema.
\<close>

definition index_last :: "('a \<Rightarrow> 'k option) \<Rightarrow> 'a list \<Rightarrow> 'k \<Rightarrow> 'a option" where
  "index_last g xs =
     fold (\<lambda>x m. case g x of None \<Rightarrow> m | Some k \<Rightarrow> m(k \<mapsto> x)) xs Map.empty"

definition id_key :: "string \<times> field \<Rightarrow> string option" where
  "id_key e = (if truthy_str (fid (snd e)) then fid (snd e) else None)"

definition type_key :: "string \<times> field \<Rightarrow> field_type option" where
  "type_key e = (if ftype (snd e) \<in> SINGLETON_TYPES then Some (ftype (snd e)) else None)"

definition schema_ids :: "schema \<Rightarrow> string list" where
  "schema_ids s = List.map_filter id_key s"

section \<open>toPropertyDefinition\<close>

record prop_select_option =
  so_id :: string
  so_name :: string
  so_color :: string

datatype relation_config =
  SingleProperty string
| DualProperty string string string

datatype definition_body =
  D_title | D_rich_text | D_date | D_people | D_files | D_checkbox | D_url | D_email
| D_phone_number | D_created_time | D_created_by | D_last_edited_time | D_last_edited_by
| D_select "prop_select_option list"
| D_multi_select "prop_select_option list"
| D_status
| D_formula string
| D_number string
| D_unique_id "string option"
| D_relation relation_config
| D_rollup string string string string string

text \<open>
  A property definition input: the optional \<open>id\<close>, the optional \<open>name\<close> (set only by
  \<open>applySchemaChanges\<close> on a label rename) and the typed body.
\<close>

record definition_input =
  def_id :: "string option"
  def_name :: "string option"
  def_body :: definition_body

definition toSelectOptions :: "select_options option \<Rightarrow> prop_select_option list" where
  "toSelectOptions selectOptions =
     (case selectOptions of
        None \<Rightarrow> []
      | Some (OptionNames names) \<Rightarrow>
          map (\<lambda>name. \<lparr>so_id = [], so_name = name, so_color = ''default''\<rparr>) names
      | Some (OptionRecord entries) \<Rightarrow>
          map (\<lambda>(key, value).
                 case value of
                   OptionLabel v \<Rightarrow> \<lparr>so_id = [], so_name = v, so_color = ''default''\<rparr>
                 | OptionObject i l c \<Rightarrow>
                     \<lparr>so_id = [],
                      so_name = (case l of None \<Rightarrow> key | Some x \<Rightarrow> x),
                      so_color = (case c of None \<Rightarrow> ''default'' | Some x \<Rightarrow> x)\<rparr>)
              entries)"

fun definition_body_of :: "field_kind \<Rightarrow> definition_body" where
  "definition_body_of Title = D_title"
| "definition_body_of RichText = D_rich_text"
| "definition_body_of Date = D_date"
| "definition_body_of People = D_people"
| "definition_body_of Files = D_files"
| "definition_body_of Checkbox = D_checkbox"
| "definition_body_of Url = D_url"
| "definition_body_of Email = D_email"
| "definition_body_of PhoneNumber = D_phone_number"
| "definition_body_of CreatedTime = D_created_time"
| "definition_body_of CreatedBy = D_created_by"
| "definition_body_of LastEditedTime = D_last_edited_time"
| "definition_body_of LastEditedBy = D_last_edited_by"
| "definition_body_of (Select opts) = D_select (toSelectOptions opts)"
| "definition_body_of (MultiSelect opts) = D_multi_select (toSelectOptions opts)"
| "definition_body_of (Status _) = D_status"
| "definition_body_of (Formula e) = D_formula e"
| "definition_body_of (Number fmt) =
     D_number (case fmt of None \<Rightarrow> ''number'' | Some x \<Rightarrow> x)"
| "definition_body_of (UniqueId p) = D_unique_id p"
| "definition_body_of (RelationDual ds sid sname) = D_relation (DualProperty ds sid sname)"
| "definition_body_of (RelationSingle ds) = D_relation (SingleProperty ds)"
| "definition_body_of (Rollup rel prop fn) = D_rollup rel [] prop [] fn"

text \<open>
  The argument is what \<open>localSchema[key]\<close> gave: a field, or an inherited member of
  \<open>Object.prototype\<close>, whose \<open>type\<close> is \<open>undefined\<close> and which falls through every
  comparison to the last line.
\<close>

definition toPropertyDefinition :: "field member \<Rightarrow> error + definition_input" where
  "toPropertyDefinition field' =
     (case field' of
        Own f \<Rightarrow>
          Inr \<lparr>def_id = fid f, def_name = None, def_body = definition_body_of (kind f)\<rparr>
      | Inherited \<Rightarrow> Inl (Error ''Unsupported field type: undefined''))"

section \<open>applySchemaChanges\<close>

datatype ConflictStrategy = Merge | Overwrite | Strict

text \<open>\<open>Array.prototype.join\<close> on a list of strings.\<close>

fun join :: "string \<Rightarrow> string list \<Rightarrow> string" where
  "join sep [] = []"
| "join sep [x] = x"
| "join sep (x # y # ys) = x @ sep @ join sep (y # ys)"

text \<open>
  The result object: its own properties as an association list (assigning to a key that
  is present replaces its value in place, assigning to a new key appends it), and
  whether its prototype has been set to \<open>null\<close>. An assignment under the key \<open>__proto__\<close>
  runs the setter inherited from \<open>Object.prototype\<close>: the value, a definition or
  \<open>null\<close>, becomes the prototype and no property is created. Once the prototype is
  \<open>null\<close> the setter is out of reach and \<open>__proto__\<close> is a key like any other.
\<close>

type_synonym changes_result = "(string \<times> definition_input option) list"

record result_object =
  own_properties :: changes_result
  prototype_null :: bool

definition assign :: "string \<Rightarrow> definition_input option \<Rightarrow> result_object \<Rightarrow> result_object" where
  "assign k v result =
     (if k = ''__proto__'' \<and> \<not> prototype_null result
      then result\<lparr>prototype_null := (v = None)\<rparr>
      else result\<lparr>own_properties := AList.update k v (own_properties result)\<rparr>)"

text \<open>A loop whose body may throw: the first throw ends it.\<close>

fun fold_throwing :: "('a \<Rightarrow> 's \<Rightarrow> error + 's) \<Rightarrow> 'a list \<Rightarrow> 's \<Rightarrow> error + 's" where
  "fold_throwing g [] s = Inr s"
| "fold_throwing g (x # xs) s =
     (case g x s of Inl e \<Rightarrow> Inl e | Inr s' \<Rightarrow> fold_throwing g xs s')"

text \<open>\<open>field.label\<close>, as a property key: \<open>undefined\<close> for an inherited member.\<close>

definition label_of :: "field member \<Rightarrow> string" where
  "label_of field' = (case field' of Own f \<Rightarrow> label f | Inherited \<Rightarrow> ''undefined'')"

fun apply_added :: "schema \<Rightarrow> diff \<Rightarrow> result_object \<Rightarrow> error + result_object" where
  "apply_added localSchema (Added key _) result =
     (case schema_lookup localSchema key of
        None \<Rightarrow> Inr result
      | Some field' \<Rightarrow>
          (case toPropertyDefinition field' of
             Inl e \<Rightarrow> Inl e
           | Inr definition \<Rightarrow> Inr (assign (label_of field') (Some definition) result)))"
| "apply_added localSchema _ result = Inr result"

text \<open>
  The body of the loop over the modified diffs: \<open>id = diff.id ?? diff.from.id\<close>, set on
  the definition when truthy; on a label rename the entry is written under the old
  label with \<open>name\<close> set to the new one.
\<close>

fun apply_modified :: "schema \<Rightarrow> diff \<Rightarrow> result_object \<Rightarrow> error + result_object" where
  "apply_modified localSchema (Modified key fromKey did fromField toField changes) result =
     (case schema_lookup localSchema key of
        None \<Rightarrow> Inr result
      | Some field' \<Rightarrow>
          (case toPropertyDefinition field' of
             Inl e \<Rightarrow> Inl e
           | Inr definition \<Rightarrow>
               (let i = (case did of Some x \<Rightarrow> Some x | None \<Rightarrow> fid fromField);
                    definition = (if truthy_str i then definition\<lparr>def_id := i\<rparr> else definition);
                    isLabelRenamed = (''label'' \<in> set changes)
                in if isLabelRenamed
                   then Inr (assign (label fromField)
                               (Some (definition\<lparr>def_name := Some (label_of field')\<rparr>)) result)
                   else Inr (assign (label_of field') (Some definition) result))))"
| "apply_modified localSchema _ result = Inr result"

fun apply_removed :: "diff \<Rightarrow> result_object \<Rightarrow> result_object" where
  "apply_removed (Removed key f) result = assign (label f) None result"
| "apply_removed _ result = result"

text \<open>The value returned is the result object; its own properties are what a caller reads.\<close>

definition applySchemaChanges ::
  "schema \<Rightarrow> diff list \<Rightarrow> ConflictStrategy \<Rightarrow> error + changes_result" where
  "applySchemaChanges localSchema ds strategy =
     (let added = filter is_Added ds;
          removed = filter is_Removed ds;
          modified = filter is_Modified ds
      in case fold_throwing (apply_added localSchema) added
                \<lparr>own_properties = [], prototype_null = False\<rparr> of
           Inl e \<Rightarrow> Inl e
         | Inr result \<Rightarrow>
             (case fold_throwing (apply_modified localSchema) modified result of
                Inl e \<Rightarrow> Inl e
              | Inr result \<Rightarrow>
                  if length removed > 0
                  then (if strategy = Strict
                        then (let unrecognized = map d_key removed
                              in if length unrecognized > 0
                                 then Inl (Error (''Unrecognized remote fields: '' @
                                                  join '', '' unrecognized))
                                 else Inr (own_properties result))
                        else if strategy = Overwrite
                        then Inr (own_properties (fold apply_removed removed result))
                        else Inr (own_properties result))
                  else Inr (own_properties result)))"

section \<open>Local values and remote property values\<close>

text \<open>
  JavaScript numbers: \<open>NaN\<close>, the two infinities, and the finite values (every finite
  double is a real number). The code never calculates with numbers; it tests their
  truthiness and passes them through.
\<close>

datatype jsnum = NaN | PosInf | NegInf | Finite real

record date_object =
  date_start :: string
  date_end :: "string option"
  time_zone :: "string option"

record annotations =
  a_bold :: bool
  a_italic :: bool
  a_strikethrough :: bool
  a_underline :: bool
  a_code :: bool
  a_color :: string

datatype rich_text_body =
  TextBody string "string option"
| EquationBody string
| MentionBody

text \<open>
  A rich text object: the common fields \<open>plain_text\<close>, \<open>href\<close>, \<open>annotations\<close> and the
  typed body (\<open>text: {content, link}\<close> for the objects that \<open>toRichText\<close> creates).
\<close>

record rich_text =
  plain_text :: string
  href :: "string option"
  rt_annotations :: annotations
  rt_body :: rich_text_body

text \<open>
  The values that flow through the codec (\<open>unknown\<close> in the source): \<open>undefined\<close>,
  \<open>null\<close>, booleans, numbers, strings, arrays, date objects, \<open>URL\<close> instances (by their
  \<open>href\<close>) and rich text objects.
\<close>

datatype jsval =
  JUndefined
| JNull
| JBool bool
| JNum jsnum
| JStr string
| JArr "jsval list"
| JDate date_object
| JUrl string
| JRichText rich_text

text \<open>\<open>!value\<close>.\<close>

fun falsy :: "jsval \<Rightarrow> bool" where
  "falsy JUndefined = True"
| "falsy JNull = True"
| "falsy (JBool b) = (\<not> b)"
| "falsy (JNum n) = (n = NaN \<or> n = Finite 0)"
| "falsy (JStr s) = (s = [])"
| "falsy (JArr _) = False"
| "falsy (JDate _) = False"
| "falsy (JUrl _) = False"
| "falsy (JRichText _) = False"

datatype file_object = ExternalFile string | HostedFile string

datatype formula_value =
  FormulaString "string option"
| FormulaNumber "jsnum option"
| FormulaBoolean "bool option"
| FormulaDate "date_object option"

text \<open>
  A property value (\<open>Property.Value\<close> and \<open>Property.ValueInput\<close>). The payloads that
  \<open>dehydrateValue\<close> fills from its \<open>unknown\<close> argument are values; a select or status
  payload is \<open>null\<close> or the option's \<open>name\<close>; multi-select, relation and people payloads
  are the lists of the \<open>name\<close> resp. \<open>id\<close> members.
\<close>

datatype property_value =
  P_title jsval
| P_rich_text jsval
| P_number jsval
| P_select "jsval option"
| P_multi_select "jsval list"
| P_status "jsval option"
| P_date jsval
| P_checkbox jsval
| P_url jsval
| P_email jsval
| P_phone_number jsval
| P_relation "jsval list" bool
| P_people "jsval list"
| P_files "file_object list"
| P_formula formula_value
| P_rollup_number "jsnum option"
| P_rollup_date "date_object option"
| P_rollup_array "property_value list"
| P_created_time string
| P_created_by string
| P_last_edited_time string
| P_last_edited_by string
| P_unique_id "string option" jsnum

section \<open>toRichText\<close>

text \<open>
  The markdown syntax tree returned by the parser \<open>fromMarkdown\<close> of the library
  \<open>mdast-util-from-markdown\<close>. The parser is not part of this code base and is a
  parameter of \<open>toRichText\<close>.
\<close>

datatype inline =
  MdText string
| MdStrong "inline list"
| MdEmphasis "inline list"
| MdDelete "inline list"
| MdInlineCode string
| MdLink string "inline list"
| MdOtherInline

datatype block = MdParagraph "inline list" | MdOtherBlock

text \<open>\<open>Partial<RichText.Annotations>\<close>.\<close>

record partial_annotations =
  p_bold :: "bool option"
  p_italic :: "bool option"
  p_strikethrough :: "bool option"
  p_underline :: "bool option"
  p_code :: "bool option"
  p_color :: "string option"

definition no_annotations :: partial_annotations where
  "no_annotations =
     \<lparr>p_bold = None, p_italic = None, p_strikethrough = None, p_underline = None,
      p_code = None, p_color = None\<rparr>"

definition defaultAnnotations :: annotations where
  "defaultAnnotations =
     \<lparr>a_bold = False, a_italic = False, a_strikethrough = False, a_underline = False,
      a_code = False, a_color = ''default''\<rparr>"

text \<open>\<open>{ ...defaultAnnotations(), ...annotations }\<close>.\<close>

definition spread_annotations :: "annotations \<Rightarrow> partial_annotations \<Rightarrow> annotations" where
  "spread_annotations d p =
     \<lparr>a_bold = (case p_bold p of None \<Rightarrow> a_bold d | Some b \<Rightarrow> b),
      a_italic = (case p_italic p of None \<Rightarrow> a_italic d | Some b \<Rightarrow> b),
      a_strikethrough = (case p_strikethrough p of None \<Rightarrow> a_strikethrough d | Some b \<Rightarrow> b),
      a_underline = (case p_underline p of None \<Rightarrow> a_underline d | Some b \<Rightarrow> b),
      a_code = (case p_code p of None \<Rightarrow> a_code d | Some b \<Rightarrow> b),
      a_color = (case p_color p of None \<Rightarrow> a_color d | Some c \<Rightarrow> c)\<rparr>"

definition createRichText :: "string \<Rightarrow> string option \<Rightarrow> partial_annotations \<Rightarrow> rich_text" where
  "createRichText content' href' annotations' =
     \<lparr>plain_text = content',
      href = href',
      rt_annotations = spread_annotations defaultAnnotations annotations',
      rt_body = TextBody content' (if truthy_str href' then href' else None)\<rparr>"

text \<open>The link branch: a child of type \<open>text\<close> gets the link's url.\<close>

definition set_link :: "string \<Rightarrow> rich_text \<Rightarrow> rich_text" where
  "set_link url child =
     (case rt_body child of
        TextBody c _ \<Rightarrow> child\<lparr>href := Some url, rt_body := TextBody c (Some url)\<rparr>
      | _ \<Rightarrow> child)"

fun convertInlineNode :: "partial_annotations \<Rightarrow> inline \<Rightarrow> rich_text list" where
  "convertInlineNode inherited (MdText v) = [createRichText v None inherited]"
| "convertInlineNode inherited (MdStrong children) =
     concat (map (convertInlineNode (inherited\<lparr>p_bold := Some True\<rparr>)) children)"
| "convertInlineNode inherited (MdEmphasis children) =
     concat (map (convertInlineNode (inherited\<lparr>p_italic := Some True\<rparr>)) children)"
| "convertInlineNode inherited (MdDelete children) =
     concat (map (convertInlineNode (inherited\<lparr>p_strikethrough := Some True\<rparr>)) children)"
| "convertInlineNode inherited (MdInlineCode v) =
     [createRichText v None (inherited\<lparr>p_code := Some True\<rparr>)]"
| "convertInlineNode inherited (MdLink url children) =
     map (set_link url) (concat (map (convertInlineNode inherited) children))"
| "convertInlineNode inherited MdOtherInline = []"

definition convertInlineNodes :: "inline list \<Rightarrow> partial_annotations \<Rightarrow> rich_text list" where
  "convertInlineNodes nodes inherited = concat (map (convertInlineNode inherited) nodes)"

text \<open>The loop over the children of the tree; a newline separates two paragraphs.\<close>

fun convert_blocks :: "block list \<Rightarrow> rich_text list \<Rightarrow> rich_text list" where
  "convert_blocks [] richTexts = richTexts"
| "convert_blocks (MdParagraph children # rest) richTexts =
     convert_blocks rest
       ((if length richTexts > 0
         then richTexts @ [createRichText [CHR 0x0A] None no_annotations]
         else richTexts) @ convertInlineNodes children no_annotations)"
| "convert_blocks (MdOtherBlock # rest) richTexts = convert_blocks rest richTexts"

definition toRichText :: "(string \<Rightarrow> block list) \<Rightarrow> jsval \<Rightarrow> jsval" where
  "toRichText fromMarkdown v =
     (case v of
        JUndefined \<Rightarrow> JArr []
      | JStr s \<Rightarrow>
          (let richTexts = convert_blocks (fromMarkdown s) []
           in if length richTexts = 0
              then JArr [JRichText \<lparr>plain_text = s, href = None,
                                    rt_annotations = defaultAnnotations,
                                    rt_body = TextBody s None\<rparr>]
              else JArr (map JRichText richTexts))
      | _ \<Rightarrow> v)"

section \<open>dehydrateValue\<close>

text \<open>The display name of a record-form option: \<open>value.label ?? key\<close>.\<close>

definition option_name :: "string \<Rightarrow> select_option_value \<Rightarrow> string" where
  "option_name k v =
     (case v of
        OptionLabel n \<Rightarrow> n
      | OptionObject i l c \<Rightarrow> (case l of None \<Rightarrow> k | Some n \<Rightarrow> n))"

text \<open>The body shared by the two key-to-name builders: one option set added to the map.\<close>

definition set_key_to_name :: "select_options \<Rightarrow> (string \<rightharpoonup> string) \<Rightarrow> (string \<rightharpoonup> string)" where
  "set_key_to_name opts m =
     (case opts of
        OptionNames names \<Rightarrow> fold (\<lambda>name m. m(name \<mapsto> name)) names m
      | OptionRecord entries \<Rightarrow>
          fold (\<lambda>(k, v) m. m(k \<mapsto> option_name k v)) entries m)"

definition buildKeyToNameMap :: "select_options option \<Rightarrow> (string \<rightharpoonup> string)" where
  "buildKeyToNameMap opts =
     (case opts of None \<Rightarrow> Map.empty | Some os \<Rightarrow> set_key_to_name os Map.empty)"

definition buildStatusKeyToNameMap :: "status_options option \<Rightarrow> (string \<rightharpoonup> string)" where
  "buildStatusKeyToNameMap gs =
     (case gs of
        None \<Rightarrow> Map.empty
      | Some groups' \<Rightarrow> fold (\<lambda>(gk, g) m. set_key_to_name (sg_options g) m) groups' Map.empty)"

text \<open>
  \<open>map.get(value) ?? value\<close>: the keys of the map are strings, so a value that is not
  a string is not found.
\<close>

definition get_or_self :: "(string \<rightharpoonup> string) \<Rightarrow> jsval \<Rightarrow> jsval" where
  "get_or_self m v =
     (case v of
        JStr s \<Rightarrow> (case m s of None \<Rightarrow> v | Some r \<Rightarrow> JStr r)
      | _ \<Rightarrow> v)"

text \<open>
  \<open>dehydrateValue\<close> returns a property value, or \<open>undefined\<close> (\<open>Inr None\<close>) for the types
  it does not write, or throws (\<open>Inl\<close>): \<open>.map\<close> is called on the value of a multi-select,
  relation or people field, and only an array has that method.
\<close>

definition dehydrateValue ::
  "(string \<Rightarrow> block list) \<Rightarrow> field \<Rightarrow> jsval \<Rightarrow> error + property_value option" where
  "dehydrateValue fromMarkdown f v =
     (case kind f of
        Title \<Rightarrow> Inr (Some (P_title (toRichText fromMarkdown v)))
      | RichText \<Rightarrow> Inr (Some (P_rich_text (toRichText fromMarkdown v)))
      | Number _ \<Rightarrow> Inr (Some (P_number v))
      | Select opts \<Rightarrow>
          if falsy v then Inr (Some (P_select None))
          else Inr (Some (P_select (Some (get_or_self (buildKeyToNameMap opts) v))))
      | MultiSelect opts \<Rightarrow>
          (case v of
             JArr keys \<Rightarrow>
               Inr (Some (P_multi_select (map (get_or_self (buildKeyToNameMap opts)) keys)))
           | _ \<Rightarrow> Inl TypeError)
      | Status gs \<Rightarrow>
          if falsy v then Inr (Some (P_status None))
          else Inr (Some (P_status (Some (get_or_self (buildStatusKeyToNameMap gs) v))))
      | Date \<Rightarrow> Inr (Some (P_date v))
      | Checkbox \<Rightarrow> Inr (Some (P_checkbox v))
      | Url \<Rightarrow> Inr (Some (P_url v))
      | Email \<Rightarrow> Inr (Some (P_email v))
      | PhoneNumber \<Rightarrow> Inr (Some (P_phone_number v))
      | RelationSingle _ \<Rightarrow>
          (case v of JArr ids \<Rightarrow> Inr (Some (P_relation ids False)) | _ \<Rightarrow> Inl TypeError)
      | RelationDual _ _ _ \<Rightarrow>
          (case v of JArr ids \<Rightarrow> Inr (Some (P_relation ids False)) | _ \<Rightarrow> Inl TypeError)
      | People \<Rightarrow>
          (case v of JArr ids \<Rightarrow> Inr (Some (P_people ids)) | _ \<Rightarrow> Inl TypeError)
      | _ \<Rightarrow> Inr None)"

section \<open>hydrateValue\<close>

definition set_name_to_key :: "select_options \<Rightarrow> (string \<rightharpoonup> string) \<Rightarrow> (string \<rightharpoonup> string)" where
  "set_name_to_key opts m =
     (case opts of
        OptionNames names \<Rightarrow> fold (\<lambda>name m. m(name \<mapsto> name)) names m
      | OptionRecord entries \<Rightarrow>
          fold (\<lambda>(k, v) m. m(option_name k v \<mapsto> k)) entries m)"

definition buildNameToKeyMap :: "select_options option \<Rightarrow> (string \<rightharpoonup> string)" where
  "buildNameToKeyMap opts =
     (case opts of None \<Rightarrow> Map.empty | Some os \<Rightarrow> set_name_to_key os Map.empty)"

definition buildStatusNameToKeyMap :: "status_options option \<Rightarrow> (string \<rightharpoonup> string)" where
  "buildStatusNameToKeyMap gs =
     (case gs of
        None \<Rightarrow> Map.empty
      | Some groups' \<Rightarrow> fold (\<lambda>(gk, g) m. set_name_to_key (sg_options g) m) groups' Map.empty)"

definition getFileObjectUrl :: "file_object \<Rightarrow> string" where
  "getFileObjectUrl file = (case file of ExternalFile url \<Rightarrow> url | HostedFile url \<Rightarrow> url)"

text \<open>
  \<open>payload.map(t => t.plain_text).join('')\<close>: reading \<open>map\<close> of anything but an array, or
  \<open>plain_text\<close> of \<open>undefined\<close> or \<open>null\<close>, throws; any other element without that
  member contributes \<open>undefined\<close>, which \<open>join\<close> renders as the empty string.
\<close>

fun plain_text_of :: "jsval \<Rightarrow> string" where
  "plain_text_of (JRichText r) = plain_text r"
| "plain_text_of _ = []"

definition join_plain_text :: "jsval \<Rightarrow> error + jsval" where
  "join_plain_text payload =
     (case payload of
        JArr ts \<Rightarrow>
          if list_ex (\<lambda>t. t = JUndefined \<or> t = JNull) ts then Inl TypeError
          else Inr (JStr (concat (map plain_text_of ts)))
      | _ \<Rightarrow> Inl TypeError)"

definition of_option :: "('a \<Rightarrow> jsval) \<Rightarrow> 'a option \<Rightarrow> jsval" where
  "of_option wrap x = (case x of None \<Rightarrow> JNull | Some y \<Rightarrow> wrap y)"

text \<open>\<open>prefix ? `${prefix}-${number}` : String(number)\<close>; \<open>String\<close> on numbers is a parameter.\<close>

definition unique_id_string :: "(jsnum \<Rightarrow> string) \<Rightarrow> string option \<Rightarrow> jsnum \<Rightarrow> string" where
  "unique_id_string numberToString p n =
     (if truthy_str p then the p @ ''-'' @ numberToString n else numberToString n)"

fun extractRawValue :: "(jsnum \<Rightarrow> string) \<Rightarrow> property_value \<Rightarrow> error + jsval" where
  "extractRawValue str (P_title p) = join_plain_text p"
| "extractRawValue str (P_rich_text p) = join_plain_text p"
| "extractRawValue str (P_number v) = Inr v"
| "extractRawValue str (P_select s) = Inr (case s of None \<Rightarrow> JUndefined | Some n \<Rightarrow> n)"
| "extractRawValue str (P_multi_select ns) = Inr (JArr ns)"
| "extractRawValue str (P_status s) = Inr (case s of None \<Rightarrow> JUndefined | Some n \<Rightarrow> n)"
| "extractRawValue str (P_date v) = Inr v"
| "extractRawValue str (P_checkbox v) = Inr v"
| "extractRawValue str (P_url v) = Inr v"
| "extractRawValue str (P_email v) = Inr v"
| "extractRawValue str (P_phone_number v) = Inr v"
| "extractRawValue str (P_created_time t) = Inr (JStr t)"
| "extractRawValue str (P_last_edited_time t) = Inr (JStr t)"
| "extractRawValue str (P_relation ids _) = Inr (JArr ids)"
| "extractRawValue str (P_people ids) = Inr (JArr ids)"
| "extractRawValue str (P_created_by u) = Inr (JStr u)"
| "extractRawValue str (P_last_edited_by u) = Inr (JStr u)"
| "extractRawValue str (P_unique_id p n) = Inr (JStr (unique_id_string str p n))"
| "extractRawValue str _ = Inr JUndefined"

text \<open>\<open>Array.prototype.map\<close> with a callback that may throw: the first throw wins.\<close>

fun map_throwing :: "('a \<Rightarrow> error + 'b) \<Rightarrow> 'a list \<Rightarrow> error + 'b list" where
  "map_throwing g [] = Inr []"
| "map_throwing g (x # xs) =
     (case g x of
        Inl e \<Rightarrow> Inl e
      | Inr y \<Rightarrow> (case map_throwing g xs of Inl e \<Rightarrow> Inl e | Inr ys \<Rightarrow> Inr (y # ys)))"

definition hydrateValue ::
  "(jsnum \<Rightarrow> string) \<Rightarrow> property_value \<Rightarrow> field \<Rightarrow> error + jsval" where
  "hydrateValue str property f =
     (case property of
        P_title p \<Rightarrow> join_plain_text p
      | P_rich_text p \<Rightarrow> join_plain_text p
      | P_number v \<Rightarrow> Inr v
      | P_select s \<Rightarrow>
          (let name = (case s of None \<Rightarrow> JUndefined | Some n \<Rightarrow> n)
           in if falsy name then Inr JUndefined
              else (case kind f of
                      Select (Some opts) \<Rightarrow> Inr (get_or_self (buildNameToKeyMap (Some opts)) name)
                    | _ \<Rightarrow> Inr name))
      | P_multi_select names \<Rightarrow>
          (case kind f of
             MultiSelect (Some opts) \<Rightarrow>
               Inr (JArr (map (get_or_self (buildNameToKeyMap (Some opts))) names))
           | _ \<Rightarrow> Inr (JArr names))
      | P_status s \<Rightarrow>
          (let name = (case s of None \<Rightarrow> JUndefined | Some n \<Rightarrow> n)
           in if falsy name then Inr JUndefined
              else (case kind f of
                      Status (Some gs) \<Rightarrow>
                        Inr (get_or_self (buildStatusNameToKeyMap (Some gs)) name)
                    | _ \<Rightarrow> Inr name))
      | P_date v \<Rightarrow> Inr v
      | P_checkbox v \<Rightarrow> Inr v
      | P_url v \<Rightarrow> Inr v
      | P_email v \<Rightarrow> Inr v
      | P_phone_number v \<Rightarrow> Inr v
      | P_created_time t \<Rightarrow> Inr (JStr t)
      | P_last_edited_time t \<Rightarrow> Inr (JStr t)
      | P_relation ids _ \<Rightarrow> Inr (JArr ids)
      | P_people ids \<Rightarrow> Inr (JArr ids)
      | P_files files \<Rightarrow> Inr (JArr (map (\<lambda>file. JStr (getFileObjectUrl file)) files))
      | P_formula fv \<Rightarrow>
          Inr (case fv of
                 FormulaString x \<Rightarrow> of_option JStr x
               | FormulaNumber x \<Rightarrow> of_option JNum x
               | FormulaBoolean x \<Rightarrow> of_option JBool x
               | FormulaDate x \<Rightarrow> of_option JDate x)
      | P_rollup_number x \<Rightarrow> Inr (of_option JNum x)
      | P_rollup_date x \<Rightarrow> Inr (of_option JDate x)
      | P_rollup_array vs \<Rightarrow>
          (case map_throwing (extractRawValue str) vs of
             Inl e \<Rightarrow> Inl e
           | Inr xs \<Rightarrow> Inr (JArr xs))
      | P_created_by u \<Rightarrow> Inr (JStr u)
      | P_last_edited_by u \<Rightarrow> Inr (JStr u)
      | P_unique_id p n \<Rightarrow> Inr (JStr (unique_id_string str p n)))"

section \<open>hydrate\<close>



section \<open>buildUpsertFilter\<close>

datatype filter =
  F_title string string
| F_rich_text string string
| F_number string jsnum
| F_checkbox string bool
| F_select string string
| F_status string string
| F_relation string string
| F_and "filter list"










section \<open>restoreExpression\<close>

text \<open>
  The pattern \<open>/{{notion:block_property:([^:]+):([^:]+):([^}]+)}}/g\<close>. A match at the
  head of a string: the literal prefix, a non-empty run without a colon, a colon, a second
  such run, a colon, a non-empty run without a closing brace, and two closing braces. Each
  run is followed by a character outside its class, so the longest run is the only one
  with which the rest of the pattern can match. The result holds the three groups and
  the text after the match.
\<close>

definition BLOCK_PROPERTY_PREFIX :: string where
  "BLOCK_PROPERTY_PREFIX = ''{{notion:block_property:''"

fun strip_prefix :: "string \<Rightarrow> string \<Rightarrow> string option" where
  "strip_prefix [] s = Some s"
| "strip_prefix (p # ps) [] = None"
| "strip_prefix (p # ps) (c # cs) = (if p = c then strip_prefix ps cs else None)"

definition match_at :: "string \<Rightarrow> (string \<times> string \<times> string \<times> string) option" where
  "match_at s =
     (case strip_prefix BLOCK_PROPERTY_PREFIX s of
        None \<Rightarrow> None
      | Some r1 \<Rightarrow>
          (let g1 = takeWhile (\<lambda>c. c \<noteq> CHR '':'') r1;
               r2 = dropWhile (\<lambda>c. c \<noteq> CHR '':'') r1
           in if g1 = [] then None
              else (case r2 of
                      [] \<Rightarrow> None
                    | _ # r2' \<Rightarrow>
                        (let g2 = takeWhile (\<lambda>c. c \<noteq> CHR '':'') r2';
                             r3 = dropWhile (\<lambda>c. c \<noteq> CHR '':'') r2'
                         in if g2 = [] then None
                            else (case r3 of
                                    [] \<Rightarrow> None
                                  | _ # r3' \<Rightarrow>
                                      (let g3 = takeWhile (\<lambda>c. c \<noteq> CHR ''}'') r3';
                                           r4 = dropWhile (\<lambda>c. c \<noteq> CHR ''}'') r3'
                                       in if g3 = [] then None
                                          else (case r4 of
                                                  a # b # rest \<Rightarrow>
                                                    if b = CHR ''}'' then Some (g1, g2, g3, rest)
                                                    else None
                                                | _ \<Rightarrow> None)))))))"

text \<open>
  \<open>String.prototype.replaceAll\<close> with this pattern and a replacer function: at every
  position, from the left, a match is replaced by the replacer's result and the scan
  goes on after it; otherwise the character is kept. The counter skips the characters
  of a match that has been replaced.
\<close>

fun replace_from ::
  "(string \<Rightarrow> string \<Rightarrow> string \<Rightarrow> string \<Rightarrow> string) \<Rightarrow> nat \<Rightarrow> string \<Rightarrow> string" where
  "replace_from replacer n [] = []"
| "replace_from replacer (Suc n) (c # cs) = replace_from replacer n cs"
| "replace_from replacer 0 (c # cs) =
     (case match_at (c # cs) of
        None \<Rightarrow> c # replace_from replacer 0 cs
      | Some (g1, g2, g3, rest) \<Rightarrow>
          replacer (take (length (c # cs) - length rest) (c # cs)) g1 g2 g3 @
          replace_from replacer (length cs - length rest) cs)"

definition replaceAll ::
  "(string \<Rightarrow> string \<Rightarrow> string \<Rightarrow> string \<Rightarrow> string) \<Rightarrow> string \<Rightarrow> string" where
  "replaceAll replacer s = replace_from replacer 0 s"

definition encodedIdToKey :: "(string \<Rightarrow> string) \<Rightarrow> schema \<Rightarrow> (string \<rightharpoonup> string)" where
  "encodedIdToKey encodeURIComponent schema' =
     fold (\<lambda>(k, f) m.
        if truthy_str (fid f) then m(encodeURIComponent (the (fid f)) \<mapsto> k) else m)
       schema' Map.empty"

text \<open>
  \<open>encodeURIComponent\<close> belongs to the runtime and is a parameter. The replacer keeps the
  match when the reference is to another data source or when the lookup is falsy.
\<close>

definition restoreExpression ::
  "(string \<Rightarrow> string) \<Rightarrow> string \<Rightarrow> string \<Rightarrow> schema \<Rightarrow> string" where
  \<open>restoreExpression encodeURIComponent expression' dataSourceId schema' =
     replaceAll
       (\<lambda>match encodedPropertyId referenceDataSourceId blockId.
          if referenceDataSourceId \<noteq> dataSourceId then match
          else (case encodedIdToKey encodeURIComponent schema' encodedPropertyId of
                  None \<Rightarrow> match
                | Some schemaKey \<Rightarrow>
                    if schemaKey = [] then match
                    else ''prop("'' @ schemaKey @ ''")''))
       expression'\<close>

section \<open>The matching algorithm as the specification words it\<close>

text \<open>
  The specification's matching step, for one field of \<open>to\<close>: the first rule that
  applies among (1) an unconsumed \<open>from\<close> field that shares the (truthy) id, (2) an
  unconsumed \<open>from\<close> field at the same key, (3) an unconsumed \<open>from\<close> field with the
  same label, (4) for a singleton type, an unconsumed \<open>from\<close> field of that type. It
  searches the fields of \<open>from\<close> themselves, not lookup maps.
\<close>

definition spec_match ::
  "schema \<Rightarrow> string set \<Rightarrow> string \<Rightarrow> field \<Rightarrow> (string \<times> field) option" where
  "spec_match frm consumed toKey toField =
     (case (if truthy_str (fid toField)
            then find (\<lambda>e. fst e \<notin> consumed \<and> fid (snd e) = fid toField) frm
            else None) of
        Some m \<Rightarrow> Some m
      | None \<Rightarrow>
     (case find (\<lambda>e. fst e \<notin> consumed \<and> fst e = toKey) frm of
        Some m \<Rightarrow> Some m
      | None \<Rightarrow>
     (case find (\<lambda>e. fst e \<notin> consumed \<and> label (snd e) = label toField) frm of
        Some m \<Rightarrow> Some m
      | None \<Rightarrow>
     (if ftype toField \<in> SINGLETON_TYPES
      then find (\<lambda>e. fst e \<notin> consumed \<and> ftype (snd e) = ftype toField) frm
      else None))))"

text \<open>
  One pass over \<open>to\<close> in iteration order: an unmatched field is added, a matched pair
  consumes its \<open>from\<close> field; then every unconsumed \<open>from\<close> field is removed.
\<close>

fun spec_match_all :: "schema \<Rightarrow> schema \<Rightarrow> string set \<Rightarrow> diff list \<times> string set" where
  "spec_match_all frm [] consumed = ([], consumed)"
| "spec_match_all frm ((toKey, toField) # rest) consumed =
     (case spec_match frm consumed toKey toField of
        None \<Rightarrow>
          (case spec_match_all frm rest consumed of
             (ds, c) \<Rightarrow> (Added toKey toField # ds, c))
      | Some (fromKey, fromField) \<Rightarrow>
          (case spec_match_all frm rest (insert fromKey consumed) of
             (ds, c) \<Rightarrow> (modified_entry fromKey fromField toKey toField @ ds, c)))"

definition spec_diffSchema :: "schema \<Rightarrow> schema \<Rightarrow> diff list" where
  "spec_diffSchema frm to =
     (case spec_match_all frm to {} of
        (ds, consumed) \<Rightarrow>
          ds @ map (\<lambda>e. Removed (fst e) (snd e)) (filter (\<lambda>e. fst e \<notin> consumed) frm))"

text \<open>The labels of a schema, and its singleton types, one per field that has one.\<close>

definition schema_labels :: "schema \<Rightarrow> string list" where
  "schema_labels s = map (\<lambda>e. label (snd e)) s"

definition schema_singletons :: "schema \<Rightarrow> field_type list" where
  "schema_singletons s = List.map_filter type_key s"

text \<open>
  What holds of every \<open>modified\<close> entry that \<open>diffSchema\<close> emits: the change set is not
  empty, the entry is keyed by a field of \<open>to\<close>, \<open>fromKey\<close> is set exactly when the
  key changed and is then the key of the matched \<open>from\<close> field, and \<open>id\<close> is the
  matched \<open>from\<close> field's id whenever that id is truthy.
\<close>

definition modified_ok :: "schema \<Rightarrow> schema \<Rightarrow> diff \<Rightarrow> bool" where
  "modified_ok frm to d \<longleftrightarrow>
     d_changes d \<noteq> [] \<and>
     (d_key d, d_to d) \<in> set to \<and>
     (case d_fromKey d of
        None \<Rightarrow> ''key'' \<notin> set (d_changes d) \<and> (d_key d, d_from d) \<in> set frm
      | Some k \<Rightarrow> ''key'' \<in> set (d_changes d) \<and> k \<noteq> d_key d \<and> (k, d_from d) \<in> set frm) \<and>
     d_id d = (if truthy_str (fid (d_from d)) then fid (d_from d) else None)"

text \<open>
  The key of the result under which the body of the loop over the modified diffs
  writes for a given diff: none when the diff is not a modified one or its key is not a
  key of the local schema.
\<close>

fun modified_target :: "schema \<Rightarrow> diff \<Rightarrow> string option" where
  "modified_target localSchema (Modified key fromKey did fromField toField changes) =
     (case map_of localSchema key of
        None \<Rightarrow> None
      | Some f \<Rightarrow> Some (if ''label'' \<in> set changes then label fromField else label f))"
| "modified_target localSchema _ = None"

text \<open>
  A diff whose key reaches an inherited member: an added or modified diff with a key
  that the local schema does not have and \<open>Object.prototype\<close> has.
\<close>

definition inherited_key :: "schema \<Rightarrow> diff \<Rightarrow> bool" where
  "inherited_key localSchema d \<longleftrightarrow>
     \<not> is_Removed d \<and> d_key d \<in> set OBJECT_PROTOTYPE \<and> d_key d \<notin> fst ` set localSchema"



fun truthy :: "jsval \<Rightarrow> bool" where
  "truthy JUndefined = False"
| "truthy JNull = False"
| "truthy (JBool b) = b"
| "truthy (JNum NaN) = False"
| "truthy (JNum (Finite x)) = (x \<noteq> 0)"
| "truthy (JNum _) = True"
| "truthy (JStr s) = (s \<noteq> [])"
| "truthy _ = True"




text \<open>
  The vocabulary of an option set as a list of (key, display name) pairs, in the order
  in which the map builders visit it; the vocabulary of a status field is that of its
  groups, one after the other.
\<close>

definition option_pairs :: "select_options \<Rightarrow> (string \<times> string) list" where
  "option_pairs opts =
     (case opts of
        OptionNames names \<Rightarrow> map (\<lambda>n. (n, n)) names
      | OptionRecord entries \<Rightarrow> map (\<lambda>e. (fst e, option_name (fst e) (snd e))) entries)"

definition status_pairs :: "status_options \<Rightarrow> (string \<times> string) list" where
  "status_pairs gs = concat (map (\<lambda>g. option_pairs (sg_options (snd g))) gs)"

text \<open>
  The text that a markdown tree carries: the texts of the text and inline-code nodes of
  its paragraphs, in order, through emphasis, strike-through and links, every other node
  dropped; a newline between a paragraph and the text before it. A string without any
  such text stands for itself.
\<close>

definition paragraphs_of :: "block list \<Rightarrow> inline list list" where
  "paragraphs_of bs = List.map_filter (\<lambda>b. case b of MdParagraph cs \<Rightarrow> Some cs | MdOtherBlock \<Rightarrow> None) bs"

fun inline_texts :: "inline \<Rightarrow> string list" where
  "inline_texts (MdText v) = [v]"
| "inline_texts (MdStrong cs) = concat (map inline_texts cs)"
| "inline_texts (MdEmphasis cs) = concat (map inline_texts cs)"
| "inline_texts (MdDelete cs) = concat (map inline_texts cs)"
| "inline_texts (MdInlineCode v) = [v]"
| "inline_texts (MdLink url cs) = concat (map inline_texts cs)"
| "inline_texts MdOtherInline = []"

fun text_runs :: "inline list list \<Rightarrow> string list \<Rightarrow> string list" where
  "text_runs [] runs = runs"
| "text_runs (p # ps) runs =
     text_runs ps ((if runs = [] then [] else runs @ [[CHR 0x0A]]) @ concat (map inline_texts p))"

definition markdown_text :: "(string \<Rightarrow> block list) \<Rightarrow> string \<Rightarrow> string" where
  "markdown_text fromMarkdown s =
     (let runs = text_runs (paragraphs_of (fromMarkdown s)) []
      in if runs = [] then s else concat runs)"

text \<open>
  In a vocabulary given as pairs, the display name of a key is that of the last pair
  with the key, and the key itself when there is none; the key of a display name is that
  of the last pair with the name, and the name itself when there is none.
\<close>

definition display_name :: "(string \<times> string) list \<Rightarrow> string \<Rightarrow> string" where
  "display_name ps k = (case find (\<lambda>p. fst p = k) (rev ps) of None \<Rightarrow> k | Some p \<Rightarrow> snd p)"

definition local_key :: "(string \<times> string) list \<Rightarrow> string \<Rightarrow> string" where
  "local_key ps n = (case find (\<lambda>p. snd p = n) (rev ps) of None \<Rightarrow> n | Some p \<Rightarrow> fst p)"

text \<open>
  The values that come back from the round trip through the codec. An option value
  comes back when it is not a string, or the field declares no vocabulary, or the key of
  its display name is the value itself. A select or status value comes back when it is
  \<open>undefined\<close>, or is truthy, has a display name that is not empty, and comes back as an
  option value. A multi-select value is a list of option values that come back. A text
  value is a string that is the text of its own markdown tree. A scalar field (number,
  date, checkbox, url, email, phone number) takes any value, a relation or people field
  any list, and a field of another type no value.
\<close>

definition comes_back :: "(string \<times> string) list option \<Rightarrow> jsval \<Rightarrow> bool" where
  "comes_back vocabulary v \<longleftrightarrow>
     (case v of
        JStr s \<Rightarrow>
          (case vocabulary of
             None \<Rightarrow> True
           | Some ps \<Rightarrow> local_key ps (display_name ps s) = s)
      | _ \<Rightarrow> True)"

definition named :: "(string \<times> string) list option \<Rightarrow> jsval \<Rightarrow> bool" where
  "named vocabulary v \<longleftrightarrow>
     (case v of
        JStr s \<Rightarrow>
          (case vocabulary of
             None \<Rightarrow> True
           | Some ps \<Rightarrow> display_name ps s \<noteq> [])
      | _ \<Rightarrow> True)"

definition selectable :: "(string \<times> string) list option \<Rightarrow> jsval \<Rightarrow> bool" where
  "selectable vocabulary v \<longleftrightarrow>
     v = JUndefined \<or> (truthy v \<and> named vocabulary v \<and> comes_back vocabulary v)"

fun representative :: "(string \<Rightarrow> block list) \<Rightarrow> field_kind \<Rightarrow> jsval \<Rightarrow> bool" where
  "representative md Title v = (case v of JStr s \<Rightarrow> markdown_text md s = s | _ \<Rightarrow> False)"
| "representative md RichText v = (case v of JStr s \<Rightarrow> markdown_text md s = s | _ \<Rightarrow> False)"
| "representative md (Number _) v = True"
| "representative md Date v = True"
| "representative md Checkbox v = True"
| "representative md Url v = True"
| "representative md Email v = True"
| "representative md PhoneNumber v = True"
| "representative md (Select opts) v = selectable (map_option option_pairs opts) v"
| "representative md (Status gs) v = selectable (map_option status_pairs gs) v"
| "representative md (MultiSelect opts) v =
     (case v of JArr xs \<Rightarrow> list_all (comes_back (map_option option_pairs opts)) xs | _ \<Rightarrow> False)"
| "representative md (RelationSingle _) v = (case v of JArr xs \<Rightarrow> True | _ \<Rightarrow> False)"
| "representative md (RelationDual _ _ _) v = (case v of JArr xs \<Rightarrow> True | _ \<Rightarrow> False)"
| "representative md People v = (case v of JArr xs \<Rightarrow> True | _ \<Rightarrow> False)"
| "representative md _ v = False"

definition HYDRATE_ONLY :: "field_type set" where
  "HYDRATE_ONLY =
     {T_formula, T_rollup, T_created_time, T_created_by, T_last_edited_time,
      T_last_edited_by, T_unique_id, T_files}"

text \<open>
  The two lookup maps of a vocabulary given as pairs: from key to display name and from
  display name to key, a later pair replacing an earlier one.
\<close>

definition key_to_name :: "(string \<times> string) list option \<Rightarrow> (string \<rightharpoonup> string)" where
  "key_to_name voc = (case voc of None \<Rightarrow> Map.empty
     | Some ps \<Rightarrow> fold (\<lambda>p m. m(fst p \<mapsto> snd p)) ps Map.empty)"

definition name_to_key :: "(string \<times> string) list option \<Rightarrow> (string \<rightharpoonup> string)" where
  "name_to_key voc = (case voc of None \<Rightarrow> Map.empty
     | Some ps \<Rightarrow> fold (\<lambda>p m. m(snd p \<mapsto> fst p)) ps Map.empty)"

section \<open>Expressions with embedded references\<close>

text \<open>
  An embedded block-property reference with its three parts: the percent-encoded
  property id, the id of the data source, and the id of the block. The parts are not
  empty; the first two hold no colon and the third no closing brace.
\<close>

definition reference :: "string \<Rightarrow> string \<Rightarrow> string \<Rightarrow> string" where
  "reference p d b = BLOCK_PROPERTY_PREFIX @ p @ '':'' @ d @ '':'' @ b @ ''}}''"

definition is_reference :: "string \<Rightarrow> string \<Rightarrow> string \<Rightarrow> bool" where
  "is_reference p d b \<longleftrightarrow>
     p \<noteq> [] \<and> CHR '':'' \<notin> set p \<and> d \<noteq> [] \<and> CHR '':'' \<notin> set d \<and>
     b \<noteq> [] \<and> CHR ''}'' \<notin> set b"

definition begins_reference :: "string \<Rightarrow> bool" where
  "begins_reference s \<longleftrightarrow> (\<exists>p d b rest. is_reference p d b \<and> s = reference p d b @ rest)"

text \<open>
  An expression read from the left is a sequence of pieces, each a text followed by a
  reference, and a last text. A text is outside the references when no reference begins
  at any of its positions, whatever follows the text taken into account.
\<close>

type_synonym piece = "string \<times> string \<times> string \<times> string"

fun embed :: "piece list \<Rightarrow> string \<Rightarrow> string" where
  "embed [] tail = tail"
| "embed ((t, p, d, b) # rest) tail = t @ reference p d b @ embed rest tail"

fun outside :: "string \<Rightarrow> string \<Rightarrow> bool" where
  "outside [] follow = True"
| "outside (c # cs) follow = (\<not> begins_reference (c # cs @ follow) \<and> outside cs follow)"

fun decomposed :: "piece list \<Rightarrow> string \<Rightarrow> bool" where
  "decomposed [] tail = outside tail []"
| "decomposed ((t, p, d, b) # rest) tail =
     (outside t (reference p d b @ embed rest tail) \<and> is_reference p d b \<and>
      decomposed rest tail)"

text \<open>
  The local key of the schema field whose percent-encoded id is \<open>p\<close>; of the last such
  field when several share the id.
\<close>

definition key_of_encoded_id :: "(string \<Rightarrow> string) \<Rightarrow> schema \<Rightarrow> string \<Rightarrow> string option" where
  "key_of_encoded_id encodeURIComponent schema' p =
     map_option fst
       (find (\<lambda>e. truthy_str (fid (snd e)) \<and> encodeURIComponent (the (fid (snd e))) = p)
          (rev schema'))"

definition prop_call :: "string \<Rightarrow> string" where
  \<open>prop_call k = ''prop("'' @ k @ ''")''\<close>

text \<open>
  One reference restored: the call \<open>prop("key")\<close> when the data source is the current
  one, a field has the property id and its key is not the empty string; the reference
  itself otherwise. An expression restored: its texts kept, its references restored.
\<close>

definition restore_reference ::
  "(string \<Rightarrow> string) \<Rightarrow> string \<Rightarrow> schema \<Rightarrow> string \<Rightarrow> string \<Rightarrow> string \<Rightarrow> string" where
  "restore_reference encodeURIComponent dataSourceId schema' p d b =
     (if d = dataSourceId
      then (case key_of_encoded_id encodeURIComponent schema' p of
              None \<Rightarrow> reference p d b
            | Some k \<Rightarrow> if k = [] then reference p d b else prop_call k)
      else reference p d b)"

fun restored ::
  "(string \<Rightarrow> string) \<Rightarrow> string \<Rightarrow> schema \<Rightarrow> piece list \<Rightarrow> string \<Rightarrow> string" where
  "restored enc ds schema' [] tail = tail"
| "restored enc ds schema' ((t, p, d, b) # rest) tail =
     t @ restore_reference enc ds schema' p d b @ restored enc ds schema' rest tail"

chapter \<open>Verification\<close>

section \<open>Lookup maps filled in list order\<close>

lemma index_last_Nil: "index_last g [] = Map.empty"
  by (simp add: index_last_def)

lemma index_last_snoc:
  "index_last g (xs @ [x]) =
     (case g x of None \<Rightarrow> index_last g xs | Some k \<Rightarrow> (index_last g xs)(k \<mapsto> x))"
  by (cases "g x") (simp_all add: index_last_def)

lemma map_filter_snoc:
  "List.map_filter g (xs @ [x]) =
     List.map_filter g xs @ (case g x of None \<Rightarrow> [] | Some k \<Rightarrow> [k])"
  by (cases "g x") (simp_all add: List.map_filter_def)

lemma in_set_map_filter:
  "k \<in> set (List.map_filter g xs) \<longleftrightarrow> (\<exists>x\<in>set xs. g x = Some k)"
  by (induction xs) (auto simp: map_filter_simps split: option.splits)

lemma map_filter_Some: "List.map_filter (\<lambda>e. Some (h e)) xs = map h xs"
  by (induction xs) (simp_all add: map_filter_simps)

lemma index_last_SomeD:
  "index_last g xs k = Some x \<Longrightarrow> x \<in> set xs \<and> g x = Some k"
proof (induction xs rule: rev_induct)
  case Nil
  then show ?case by (simp add: index_last_Nil)
next
  case (snoc y ys)
  show ?case
  proof (cases "g y")
    case None
    with snoc show ?thesis by (simp add: index_last_snoc)
  next
    case (Some k')
    with snoc show ?thesis
      by (cases "k' = k") (simp_all add: index_last_snoc)
  qed
qed

lemma index_last_None:
  "index_last g xs k = None \<longleftrightarrow> (\<forall>x\<in>set xs. g x \<noteq> Some k)"
proof (induction xs rule: rev_induct)
  case Nil
  then show ?case by (simp add: index_last_Nil)
next
  case (snoc y ys)
  show ?case
  proof (cases "g y")
    case None
    with snoc show ?thesis by (simp add: index_last_snoc)
  next
    case (Some k')
    with snoc show ?thesis
      by (cases "k' = k") (simp_all add: index_last_snoc)
  qed
qed

text \<open>When no two entries share a key, the map holds every entry under its key.\<close>

lemma index_last_unique:
  assumes "distinct (List.map_filter g xs)" and "x \<in> set xs" and "g x = Some k"
  shows "index_last g xs k = Some x"
  using assms
proof (induction xs rule: rev_induct)
  case Nil
  then show ?case by simp
next
  case (snoc y ys)
  show ?case
  proof (cases "g y")
    case None
    with snoc.prems have "x \<in> set ys" "distinct (List.map_filter g ys)"
      by (auto simp: map_filter_snoc)
    with snoc.IH snoc.prems(3) None show ?thesis
      by (simp add: index_last_snoc)
  next
    case (Some k')
    from snoc.prems(1) Some have d: "distinct (List.map_filter g ys)"
      and nin: "k' \<notin> set (List.map_filter g ys)"
      by (simp_all add: map_filter_snoc)
    show ?thesis
    proof (cases "x = y")
      case True
      with Some snoc.prems(3) show ?thesis by (simp add: index_last_snoc)
    next
      case False
      with snoc.prems(2) have xin: "x \<in> set ys" by simp
      with snoc.prems(3) have "k \<in> set (List.map_filter g ys)"
        by (auto simp: in_set_map_filter)
      with nin have "k' \<noteq> k" by auto
      with snoc.IH[OF d xin snoc.prems(3)] Some show ?thesis
        by (simp add: index_last_snoc)
    qed
  qed
qed

lemma find_unique_Some:
  assumes "x \<in> set xs" and "Q x" and "\<And>y. y \<in> set xs \<Longrightarrow> Q y \<Longrightarrow> y = x"
  shows "find Q xs = Some x"
proof -
  from assms(1,2) have "find Q xs \<noteq> None"
    by (simp only: find_None_iff) blast
  then obtain y where y: "find Q xs = Some y" by blast
  then have "y \<in> set xs" and "Q y"
    by (simp_all add: find_Some_iff) (metis nth_mem)+
  with assms(3) have "y = x" by blast
  with y show ?thesis by simp
qed

text \<open>
  Under the same uniqueness, searching the list for an entry with a given key that
  satisfies \<open>P\<close> is the map lookup followed by the test of \<open>P\<close>.
\<close>

lemma find_index_last:
  assumes "distinct (List.map_filter g xs)"
  shows "find (\<lambda>x. P x \<and> g x = Some k) xs =
           (case index_last g xs k of None \<Rightarrow> None | Some x \<Rightarrow> if P x then Some x else None)"
proof (cases "index_last g xs k")
  case None
  then have "\<forall>x\<in>set xs. g x \<noteq> Some k" by (simp add: index_last_None)
  then have "find (\<lambda>x. P x \<and> g x = Some k) xs = None"
    by (simp add: find_None_iff)
  with None show ?thesis by simp
next
  case (Some x)
  then have x: "x \<in> set xs" "g x = Some k" by (auto dest: index_last_SomeD)
  have uniq: "y = x" if "y \<in> set xs" "g y = Some k" for y
    using index_last_unique[OF assms that] Some by simp
  show ?thesis
  proof (cases "P x")
    case True
    have "find (\<lambda>x. P x \<and> g x = Some k) xs = Some x"
    proof (rule find_unique_Some)
      show "x \<in> set xs" by (rule x(1))
      show "P x \<and> g x = Some k" using True x(2) by simp
      show "y = x" if "y \<in> set xs" "P y \<and> g y = Some k" for y
        using that uniq by blast
    qed
    with Some True show ?thesis by simp
  next
    case False
    have "\<not> (\<exists>y. y \<in> set xs \<and> P y \<and> g y = Some k)"
      using False uniq by blast
    then have "find (\<lambda>x. P x \<and> g x = Some k) xs = None"
      by (simp only: find_None_iff) simp
    with Some False show ?thesis by simp
  qed
qed

section \<open>The lookup maps of diffSchema\<close>

lemma fromById_conv: "fromById frm = index_last id_key frm"
proof -
  have "(\<lambda>(key, field) m. if truthy_str (fid field) then m(the (fid field) \<mapsto> (key, field)) else m)
        = (\<lambda>x m. case id_key x of None \<Rightarrow> m | Some k \<Rightarrow> m(k \<mapsto> x))"
    by (intro ext) (auto simp: id_key_def truthy_str_def split: option.splits prod.splits)
  then show ?thesis by (simp add: fromById_def index_last_def)
qed

lemma fromByLabel_conv: "fromByLabel frm = index_last (\<lambda>e. Some (label (snd e))) frm"
proof -
  have eq: "(\<lambda>(key, field) m. m(label field \<mapsto> (key, field)))
        = (\<lambda>x m. case Some (label (snd x)) of None \<Rightarrow> m | Some k \<Rightarrow> m(k \<mapsto> x))"
    by (intro ext) (simp add: case_prod_beta)
  show ?thesis by (simp only: fromByLabel_def index_last_def eq)
qed

lemma fromByType_conv: "fromByType frm = index_last type_key frm"
proof -
  have "(\<lambda>(key, field) m. if ftype field \<in> SINGLETON_TYPES then m(ftype field \<mapsto> (key, field)) else m)
        = (\<lambda>x m. case type_key x of None \<Rightarrow> m | Some k \<Rightarrow> m(k \<mapsto> x))"
    by (intro ext) (auto simp: type_key_def split: prod.splits)
  then show ?thesis by (simp add: fromByType_def index_last_def)
qed

lemma fromByKey_conv:
  "fromByKey frm k = map_option snd (index_last (\<lambda>e. Some (fst e)) frm k)"
proof (induction frm rule: rev_induct)
  case Nil
  then show ?case by (simp add: fromByKey_def index_last_Nil)
next
  case (snoc e es)
  obtain k' f' where e: "e = (k', f')" by (cases e)
  have "fromByKey (es @ [e]) = (fromByKey es)(k' \<mapsto> f')"
    by (simp add: fromByKey_def e)
  with snoc show ?case by (simp add: index_last_snoc e)
qed

lemma keyed_match:
  "map_option (\<lambda>f. (k, f)) (fromByKey frm k) = index_last (\<lambda>e. Some (fst e)) frm k"
proof (cases "index_last (\<lambda>e. Some (fst e)) frm k")
  case None
  then show ?thesis by (simp add: fromByKey_conv)
next
  case (Some e)
  then have "fst e = k" by (auto dest: index_last_SomeD)
  with Some show ?thesis by (cases e) (simp add: fromByKey_conv)
qed

section \<open>diffSchema: matching\<close>


lemmas diffSchema_eval =
  diffSchema_def findMatch_def fromById_def fromByKey_def fromByLabel_def fromByType_def
  unprocessed_def truthy_str_def modified_entry_def compute_changes_def collect_removed_def
  SINGLETON_TYPES_def ftype_def

lemma findMatch_mem:
  assumes "findMatch frm P toKey toField = Some (k, f)"
  shows "(k, f) \<in> set frm \<and> k \<notin> P"
proof -
  have un: "unprocessed P m = Some (k, f) \<Longrightarrow> m = Some (k, f) \<and> k \<notin> P" for m
    by (auto simp: unprocessed_def split: option.splits if_splits)
  from assms consider
      "fromById frm (the (fid toField)) = Some (k, f)" "k \<notin> P"
    | "map_option (\<lambda>f. (toKey, f)) (fromByKey frm toKey) = Some (k, f)" "k \<notin> P"
    | "fromByLabel frm (label toField) = Some (k, f)" "k \<notin> P"
    | "fromByType frm (ftype toField) = Some (k, f)" "k \<notin> P"
    unfolding findMatch_def
    by (auto split: option.splits if_splits dest!: un)
  then show ?thesis
    by cases
      (auto simp: fromById_conv keyed_match fromByLabel_conv fromByType_conv
            dest: index_last_SomeD)
qed

lemma process_to_self:
  assumes "distinct (map fst S)" and "distinct (schema_ids S)" and "S = pre @ rest"
  shows "process_to S rest ([], fst ` set pre) = ([], fst ` set S)"
  using assms(3)
proof (induction rest arbitrary: pre)
  case Nil
  then show ?case by simp
next
  case (Cons e rest)
  obtain k f where e: "e = (k, f)" by (cases e)
  have mem: "(k, f) \<in> set S" using Cons.prems e by simp
  have fresh: "k \<notin> fst ` set pre"
    using assms(1) Cons.prems e by force
  have bykey: "index_last (\<lambda>e. Some (fst e)) S k = Some (k, f)"
    by (rule index_last_unique) (use assms(1) mem in \<open>simp_all add: map_filter_Some\<close>)
  have m: "findMatch S (fst ` set pre) k f = Some (k, f)"
  proof (cases "truthy_str (fid f)")
    case True
    then have "id_key (k, f) = Some (the (fid f))"
      by (auto simp: id_key_def truthy_str_def split: option.splits)
    with assms(2) mem have "index_last id_key S (the (fid f)) = Some (k, f)"
      unfolding schema_ids_def by (intro index_last_unique) auto
    with True fresh show ?thesis
      by (simp add: findMatch_def fromById_conv unprocessed_def)
  next
    case False
    with fresh bykey show ?thesis
      by (simp add: findMatch_def keyed_match unprocessed_def)
  qed
  have nochange: "modified_entry k f k f = []"
    by (simp add: modified_entry_def compute_changes_def)
  have "S = (pre @ [e]) @ rest" using Cons.prems by simp
  from Cons.IH[OF this] show ?case
    by (simp add: e m nochange)
qed

text \<open>
  Claim C9, as amended. For every schema \<open>S\<close> (an object: its keys are distinct) in
  which no two fields share a truthy id, \<open>diffSchema(S, S)\<close> is empty: every field
  matches itself, by id when it has one and by key otherwise, and a matched pair
  without changes produces no entry.
\<close>

theorem diffSchema_self:
  assumes "distinct (map fst S)" and "distinct (schema_ids S)"
  shows "diffSchema S S = []"
proof -
  have "process_to S S ([], {}) = ([], fst ` set S)"
    using process_to_self[OF assms, of "[]" S] by simp
  then show ?thesis
    by (force simp: diffSchema_def collect_removed_def filter_empty_conv)
qed

theorem diffSchema_self_witness:
  "distinct (map fst
     [(''name'', \<lparr>label = ''Name'', fid = Some ''title'', kind = Title\<rparr>),
      (''tags'', \<lparr>label = ''Tags'', fid = None, kind = MultiSelect None\<rparr>)])
   \<and> distinct (schema_ids
     [(''name'', \<lparr>label = ''Name'', fid = Some ''title'', kind = Title\<rparr>),
      (''tags'', \<lparr>label = ''Tags'', fid = None, kind = MultiSelect None\<rparr>)])
   \<and> diffSchema
     [(''name'', \<lparr>label = ''Name'', fid = Some ''title'', kind = Title\<rparr>),
      (''tags'', \<lparr>label = ''Tags'', fid = None, kind = MultiSelect None\<rparr>)]
     [(''name'', \<lparr>label = ''Name'', fid = Some ''title'', kind = Title\<rparr>),
      (''tags'', \<lparr>label = ''Tags'', fid = None, kind = MultiSelect None\<rparr>)] = []"
proof -
  let ?S = "[(''name'', \<lparr>label = ''Name'', fid = Some ''title'', kind = Title\<rparr>),
      (''tags'', \<lparr>label = ''Tags'', fid = None, kind = MultiSelect None\<rparr>)]"
  have a: "distinct (map fst ?S)" by simp
  have b: "distinct (schema_ids ?S)"
    by (simp add: schema_ids_def id_key_def truthy_str_def map_filter_simps)
  from a b diffSchema_self[OF a b] show ?thesis by blast
qed

text \<open>
  Two fields that share the id \<open>x\<close>: the id map holds the last of them, so the first
  field of \<open>to\<close> is matched with the second field of \<open>from\<close>, and the self-diff has
  three entries.
\<close>

theorem diffSchema_self_counterexample:
  "diffSchema
     [(''a'', \<lparr>label = ''L'', fid = Some ''x'', kind = RichText\<rparr>),
      (''b'', \<lparr>label = ''M'', fid = Some ''x'', kind = RichText\<rparr>)]
     [(''a'', \<lparr>label = ''L'', fid = Some ''x'', kind = RichText\<rparr>),
      (''b'', \<lparr>label = ''M'', fid = Some ''x'', kind = RichText\<rparr>)]
   = [Modified ''a'' (Some ''b'') (Some ''x'')
        \<lparr>label = ''M'', fid = Some ''x'', kind = RichText\<rparr>
        \<lparr>label = ''L'', fid = Some ''x'', kind = RichText\<rparr> [''key'', ''label''],
      Added ''b'' \<lparr>label = ''M'', fid = Some ''x'', kind = RichText\<rparr>,
      Removed ''a'' \<lparr>label = ''L'', fid = Some ''x'', kind = RichText\<rparr>]"
  by (simp add: diffSchema_eval)

section \<open>diffSchema: the entries of a matched pair\<close>


lemma key_in_compute_changes:
  "''key'' \<in> set (compute_changes fk ff tk tf) \<longleftrightarrow> fk \<noteq> tk"
  by (simp add: compute_changes_def)

lemma modified_entry_cases:
  assumes "d \<in> set (modified_entry fk ff tk tf)"
  shows "d = Modified tk (if fk \<noteq> tk then Some fk else None)
               (if truthy_str (fid ff) then fid ff else None) ff tf
               (compute_changes fk ff tk tf)
         \<and> compute_changes fk ff tk tf \<noteq> []"
  using assms by (auto simp: modified_entry_def Let_def split: if_splits)

lemma modified_entry_ok:
  assumes "d \<in> set (modified_entry fk ff tk tf)" and "(fk, ff) \<in> set frm" and "(tk, tf) \<in> set to"
  shows "is_Modified d \<and> modified_ok frm to d"
proof -
  from modified_entry_cases[OF assms(1)]
  have d: "d = Modified tk (if fk \<noteq> tk then Some fk else None)
               (if truthy_str (fid ff) then fid ff else None) ff tf
               (compute_changes fk ff tk tf)"
    and ne: "compute_changes fk ff tk tf \<noteq> []" by simp_all
  show ?thesis
  proof (cases "fk = tk")
    case True
    with d ne assms(2,3) show ?thesis
      by (simp add: modified_ok_def key_in_compute_changes)
  next
    case False
    with d ne assms(2,3) show ?thesis
      by (simp add: modified_ok_def key_in_compute_changes)
  qed
qed

lemma process_to_modified_ok:
  assumes "\<forall>d\<in>set acc. is_Modified d \<longrightarrow> modified_ok frm to d"
    and "set rest \<subseteq> set to"
  shows "\<forall>d\<in>set (fst (process_to frm rest (acc, P))). is_Modified d \<longrightarrow> modified_ok frm to d"
  using assms
proof (induction rest arbitrary: acc P)
  case Nil
  then show ?case by simp
next
  case (Cons e rest)
  obtain tk tf where e: "e = (tk, tf)" by (cases e)
  from Cons.prems(2) e have tmem: "(tk, tf) \<in> set to" and sub: "set rest \<subseteq> set to"
    by simp_all
  show ?case
  proof (cases "findMatch frm P tk tf")
    case None
    have "\<forall>d\<in>set (acc @ [Added tk tf]). is_Modified d \<longrightarrow> modified_ok frm to d"
      using Cons.prems(1) by simp
    from Cons.IH[OF this sub] None show ?thesis by (simp add: e)
  next
    case (Some m)
    obtain fk ff where m: "m = (fk, ff)" by (cases m)
    from Some m have "(fk, ff) \<in> set frm" by (auto dest: findMatch_mem)
    then have "\<forall>d\<in>set (acc @ modified_entry fk ff tk tf).
                 is_Modified d \<longrightarrow> modified_ok frm to d"
      using Cons.prems(1) tmem by (auto dest: modified_entry_ok)
    from Cons.IH[OF this sub] Some m show ?thesis by (simp add: e)
  qed
qed

text \<open>
  Claim C4, as amended. Every \<open>modified\<close> entry of \<open>diffSchema(from, to)\<close> has a
  non-empty change set and is keyed by a field of \<open>to\<close>; it carries \<open>fromKey\<close>, the key
  of the matched \<open>from\<close> field, exactly when the local key differs (when \<open>changes\<close>
  includes \<open>key\<close>); and it carries the matched \<open>from\<close> field's \<open>id\<close> whenever that id
  is present and not empty, whether or not the key differs.
\<close>

theorem diffSchema_modified_entries:
  assumes "d \<in> set (diffSchema frm to)" and "is_Modified d"
  shows "d_changes d \<noteq> [] \<and>
     (d_key d, d_to d) \<in> set to \<and>
     (case d_fromKey d of
        None \<Rightarrow> ''key'' \<notin> set (d_changes d) \<and> (d_key d, d_from d) \<in> set frm
      | Some k \<Rightarrow> ''key'' \<in> set (d_changes d) \<and> k \<noteq> d_key d \<and> (k, d_from d) \<in> set frm) \<and>
     d_id d = (if truthy_str (fid (d_from d)) then fid (d_from d) else None)"
proof -
  obtain acc P where p: "process_to frm to ([], {}) = (acc, P)"
    by (cases "process_to frm to ([], {})")
  have "\<forall>d\<in>set (fst (process_to frm to ([], {}))). is_Modified d \<longrightarrow> modified_ok frm to d"
    by (rule process_to_modified_ok) simp_all
  with p have acc: "\<forall>d\<in>set acc. is_Modified d \<longrightarrow> modified_ok frm to d" by simp
  from assms(1) p have "d \<in> set acc \<or> d \<in> set (collect_removed frm P)"
    by (simp add: diffSchema_def)
  moreover have "\<not> is_Modified x" if "x \<in> set (collect_removed frm P)" for x
    using that by (auto simp: collect_removed_def)
  ultimately have "d \<in> set acc" using assms(2) by blast
  with acc assms(2) have "modified_ok frm to d" by blast
  then show ?thesis by (simp add: modified_ok_def)
qed

theorem diffSchema_modified_entries_witness:
  "Modified ''b'' (Some ''a'') (Some ''x'')
      \<lparr>label = ''T'', fid = Some ''x'', kind = Title\<rparr>
      \<lparr>label = ''T'', fid = Some ''x'', kind = Title\<rparr> [''key'']
     \<in> set (diffSchema [(''a'', \<lparr>label = ''T'', fid = Some ''x'', kind = Title\<rparr>)]
                          [(''b'', \<lparr>label = ''T'', fid = Some ''x'', kind = Title\<rparr>)])
   \<and> is_Modified (Modified ''b'' (Some ''a'') (Some ''x'')
      \<lparr>label = ''T'', fid = Some ''x'', kind = Title\<rparr>
      \<lparr>label = ''T'', fid = Some ''x'', kind = Title\<rparr> [''key''])
   \<and> (''b'', \<lparr>label = ''T'', fid = Some ''x'', kind = Title\<rparr>)
        \<in> set [(''b'', \<lparr>label = ''T'', fid = Some ''x'', kind = Title\<rparr>)]
   \<and> ''key'' \<in> set [''key'']
   \<and> (''a'', \<lparr>label = ''T'', fid = Some ''x'', kind = Title\<rparr>)
        \<in> set [(''a'', \<lparr>label = ''T'', fid = Some ''x'', kind = Title\<rparr>)]"
proof -
  let ?d = "Modified ''b'' (Some ''a'') (Some ''x'')
      \<lparr>label = ''T'', fid = Some ''x'', kind = Title\<rparr>
      \<lparr>label = ''T'', fid = Some ''x'', kind = Title\<rparr> [''key'']"
  let ?F = "[(''a'', \<lparr>label = ''T'', fid = Some ''x'', kind = Title\<rparr>)]"
  let ?T = "[(''b'', \<lparr>label = ''T'', fid = Some ''x'', kind = Title\<rparr>)]"
  have a: "?d \<in> set (diffSchema ?F ?T)" by (simp add: diffSchema_eval)
  have b: "is_Modified ?d" by simp
  from diffSchema_modified_entries[OF a b] a b show ?thesis by simp
qed

text \<open>
  A label change with the key unchanged: \<open>changes\<close> is \<open>[label]\<close>, there is no
  \<open>fromKey\<close>, and the entry carries the id \<open>abc123\<close>.
\<close>

theorem diffSchema_modified_entries_counterexample:
  "diffSchema
     [(''field'', \<lparr>label = ''Old Label'', fid = Some ''abc123'', kind = Title\<rparr>)]
     [(''field'', \<lparr>label = ''New Label'', fid = Some ''abc123'', kind = Title\<rparr>)]
   = [Modified ''field'' None (Some ''abc123'')
        \<lparr>label = ''Old Label'', fid = Some ''abc123'', kind = Title\<rparr>
        \<lparr>label = ''New Label'', fid = Some ''abc123'', kind = Title\<rparr> [''label'']]"
  by (simp add: diffSchema_eval)


section \<open>diffSchema: the code against the specification's matching\<close>

lemma unprocessed_conv:
  "unprocessed c m = (case m of None \<Rightarrow> None | Some x \<Rightarrow> if fst x \<notin> c then Some x else None)"
  by (auto simp: unprocessed_def split: option.splits)

lemma spec_match_eq:
  assumes "distinct (map fst frm)" and "distinct (schema_ids frm)"
    and "distinct (schema_labels frm)" and "distinct (schema_singletons frm)"
  shows "spec_match frm c k f = findMatch frm c k f"
proof -
  have by_id: "find (\<lambda>e. fst e \<notin> c \<and> fid (snd e) = fid f) frm
                 = unprocessed c (fromById frm (the (fid f)))" if t: "truthy_str (fid f)"
  proof -
    from t obtain i where i: "fid f = Some i" "i \<noteq> []"
      by (auto simp: truthy_str_def split: option.splits)
    have "(\<lambda>e. fst e \<notin> c \<and> fid (snd e) = fid f) = (\<lambda>e. fst e \<notin> c \<and> id_key e = Some i)"
      using i by (auto simp: id_key_def truthy_str_def fun_eq_iff)
    then show ?thesis
      using find_index_last[of id_key frm "\<lambda>e. fst e \<notin> c" i] assms(2) i
      by (simp add: schema_ids_def fromById_conv unprocessed_conv)
  qed
  have by_key: "find (\<lambda>e. fst e \<notin> c \<and> fst e = k) frm
                 = unprocessed c (map_option (\<lambda>f. (k, f)) (fromByKey frm k))"
  proof -
    have "(\<lambda>e. fst e \<notin> c \<and> fst e = k) = (\<lambda>e. fst e \<notin> c \<and> Some (fst e) = Some k)"
      by simp
    then show ?thesis
      using find_index_last[of "\<lambda>e. Some (fst e)" frm "\<lambda>e. fst e \<notin> c" k] assms(1)
      by (simp add: map_filter_Some keyed_match unprocessed_conv)
  qed
  have by_label: "find (\<lambda>e. fst e \<notin> c \<and> label (snd e) = label f) frm
                 = unprocessed c (fromByLabel frm (label f))"
    using find_index_last[of "\<lambda>e. Some (label (snd e))" frm "\<lambda>e. fst e \<notin> c" "label f"] assms(3)
    by (simp add: map_filter_Some schema_labels_def fromByLabel_conv unprocessed_conv)
  have by_type: "find (\<lambda>e. fst e \<notin> c \<and> ftype (snd e) = ftype f) frm
                 = unprocessed c (fromByType frm (ftype f))" if s: "ftype f \<in> SINGLETON_TYPES"
  proof -
    have "(\<lambda>e. fst e \<notin> c \<and> ftype (snd e) = ftype f)
            = (\<lambda>e. fst e \<notin> c \<and> type_key e = Some (ftype f))"
      using s by (auto simp: type_key_def fun_eq_iff)
    then show ?thesis
      using find_index_last[of type_key frm "\<lambda>e. fst e \<notin> c" "ftype f"] assms(4)
      by (simp add: schema_singletons_def fromByType_conv unprocessed_conv)
  qed
  show ?thesis
  proof (cases "truthy_str (fid f)")
    case True
    show ?thesis
    proof (cases "ftype f \<in> SINGLETON_TYPES")
      case s: True
      show ?thesis
        unfolding spec_match_def findMatch_def by_key by_label by_id[OF True] by_type[OF s]
        by simp
    next
      case s: False
      show ?thesis
        unfolding spec_match_def findMatch_def by_key by_label by_id[OF True]
        using s by simp
    qed
  next
    case False
    show ?thesis
    proof (cases "ftype f \<in> SINGLETON_TYPES")
      case s: True
      show ?thesis
        unfolding spec_match_def findMatch_def by_key by_label by_type[OF s]
        using False by simp
    next
      case s: False
      show ?thesis
        unfolding spec_match_def findMatch_def by_key by_label
        using False s by simp
    qed
  qed
qed

lemma process_to_spec:
  assumes "distinct (map fst frm)" and "distinct (schema_ids frm)"
    and "distinct (schema_labels frm)" and "distinct (schema_singletons frm)"
  shows "process_to frm to (acc, c) =
           (case spec_match_all frm to c of (ds, c') \<Rightarrow> (acc @ ds, c'))"
proof (induction to arbitrary: acc c)
  case Nil
  then show ?case by simp
next
  case (Cons e to)
  obtain tk tf where e: "e = (tk, tf)" by (cases e)
  show ?case
  proof (cases "findMatch frm c tk tf")
    case None
    then show ?thesis
      by (simp add: e spec_match_eq[OF assms] Cons.IH split: prod.splits)
  next
    case (Some m)
    obtain fk ff where m: "m = (fk, ff)" by (cases m)
    with Some show ?thesis
      by (simp add: e spec_match_eq[OF assms] Cons.IH split: prod.splits)
  qed
qed

text \<open>
  Claim C1, as amended. When \<open>from\<close> (an object: its keys are distinct) has no two
  fields that share a truthy id, a label or a singleton type, \<open>diffSchema(from, to)\<close> is
  the specification's algorithm: each field of \<open>to\<close>, in iteration order, is matched
  with an unconsumed \<open>from\<close> field by id, else by key, else by label, else by singleton
  type; an unmatched field is added; every unconsumed \<open>from\<close> field is removed.
\<close>

theorem diffSchema_refines_spec:
  assumes "distinct (map fst frm)" and "distinct (schema_ids frm)"
    and "distinct (schema_labels frm)" and "distinct (schema_singletons frm)"
  shows "diffSchema frm to = spec_diffSchema frm to"
proof -
  obtain ds c where sp: "spec_match_all frm to {} = (ds, c)"
    by (cases "spec_match_all frm to {}")
  have rem: "collect_removed frm c
               = map (\<lambda>e. Removed (fst e) (snd e)) (filter (\<lambda>e. fst e \<notin> c) frm)"
    by (simp add: collect_removed_def split_def)
  have "process_to frm to ([], {}) = (ds, c)"
    using process_to_spec[OF assms, of to "[]" "{}"] sp by simp
  then show ?thesis
    by (simp add: diffSchema_def spec_diffSchema_def sp rem)
qed


theorem diffSchema_refines_spec_witness:
  "distinct (map fst
      [(''nom'', \<lparr>label = ''Nom'', fid = Some ''title'', kind = Title\<rparr>),
       (''old'', \<lparr>label = ''Old'', fid = None, kind = Checkbox\<rparr>)])
   \<and> distinct (schema_ids
      [(''nom'', \<lparr>label = ''Nom'', fid = Some ''title'', kind = Title\<rparr>),
       (''old'', \<lparr>label = ''Old'', fid = None, kind = Checkbox\<rparr>)])
   \<and> distinct (schema_labels
      [(''nom'', \<lparr>label = ''Nom'', fid = Some ''title'', kind = Title\<rparr>),
       (''old'', \<lparr>label = ''Old'', fid = None, kind = Checkbox\<rparr>)])
   \<and> distinct (schema_singletons
      [(''nom'', \<lparr>label = ''Nom'', fid = Some ''title'', kind = Title\<rparr>),
       (''old'', \<lparr>label = ''Old'', fid = None, kind = Checkbox\<rparr>)])
   \<and> diffSchema
      [(''nom'', \<lparr>label = ''Nom'', fid = Some ''title'', kind = Title\<rparr>),
       (''old'', \<lparr>label = ''Old'', fid = None, kind = Checkbox\<rparr>)]
      [(''name'', \<lparr>label = ''Title'', fid = None, kind = Title\<rparr>),
       (''tags'', \<lparr>label = ''Tags'', fid = None, kind = MultiSelect None\<rparr>)]
     = spec_diffSchema
      [(''nom'', \<lparr>label = ''Nom'', fid = Some ''title'', kind = Title\<rparr>),
       (''old'', \<lparr>label = ''Old'', fid = None, kind = Checkbox\<rparr>)]
      [(''name'', \<lparr>label = ''Title'', fid = None, kind = Title\<rparr>),
       (''tags'', \<lparr>label = ''Tags'', fid = None, kind = MultiSelect None\<rparr>)]"
proof -
  let ?F = "[(''nom'', \<lparr>label = ''Nom'', fid = Some ''title'', kind = Title\<rparr>),
       (''old'', \<lparr>label = ''Old'', fid = None, kind = Checkbox\<rparr>)]"
  have a: "distinct (map fst ?F)" by simp
  have b: "distinct (schema_ids ?F)"
    by (simp add: schema_ids_def id_key_def truthy_str_def map_filter_simps)
  have c: "distinct (schema_labels ?F)" by (simp add: schema_labels_def)
  have d: "distinct (schema_singletons ?F)"
    by (simp add: schema_singletons_def type_key_def ftype_def SINGLETON_TYPES_def
          map_filter_simps)
  from a b c d diffSchema_refines_spec[OF a b c d] show ?thesis by blast
qed

text \<open>
  Two \<open>from\<close> fields with the label \<open>L\<close>. The label map holds the last of them, \<open>b\<close>.
  The field \<open>x\<close> of \<open>to\<close> consumes \<open>b\<close>; for \<open>y\<close> the map still answers \<open>b\<close>, which is
  consumed, so \<open>y\<close> is added and \<open>a\<close> is removed, although \<open>a\<close> is unconsumed and has the
  same label. The specification's matching pairs \<open>x\<close> with \<open>a\<close> and \<open>y\<close> with \<open>b\<close>.
\<close>

theorem diffSchema_refines_spec_counterexample:
  "diffSchema
      [(''a'', \<lparr>label = ''L'', fid = None, kind = RichText\<rparr>),
       (''b'', \<lparr>label = ''L'', fid = None, kind = Checkbox\<rparr>)]
      [(''x'', \<lparr>label = ''L'', fid = None, kind = RichText\<rparr>),
       (''y'', \<lparr>label = ''L'', fid = None, kind = RichText\<rparr>)]
   = [Modified ''x'' (Some ''b'') None
        \<lparr>label = ''L'', fid = None, kind = Checkbox\<rparr>
        \<lparr>label = ''L'', fid = None, kind = RichText\<rparr> [''key'', ''type''],
      Added ''y'' \<lparr>label = ''L'', fid = None, kind = RichText\<rparr>,
      Removed ''a'' \<lparr>label = ''L'', fid = None, kind = RichText\<rparr>]
   \<and> spec_diffSchema
      [(''a'', \<lparr>label = ''L'', fid = None, kind = RichText\<rparr>),
       (''b'', \<lparr>label = ''L'', fid = None, kind = Checkbox\<rparr>)]
      [(''x'', \<lparr>label = ''L'', fid = None, kind = RichText\<rparr>),
       (''y'', \<lparr>label = ''L'', fid = None, kind = RichText\<rparr>)]
   = [Modified ''x'' (Some ''a'') None
        \<lparr>label = ''L'', fid = None, kind = RichText\<rparr>
        \<lparr>label = ''L'', fid = None, kind = RichText\<rparr> [''key''],
      Modified ''y'' (Some ''b'') None
        \<lparr>label = ''L'', fid = None, kind = Checkbox\<rparr>
        \<lparr>label = ''L'', fid = None, kind = RichText\<rparr> [''key'', ''type'']]"
  by (simp add: diffSchema_eval spec_diffSchema_def spec_match_def)

section \<open>A map whose callback may throw\<close>




section \<open>hydrate\<close>







section \<open>dehydrateValue: totality\<close>

text \<open>
  Claim C10. For a select or a status field \<open>dehydrateValue\<close> returns a payload for
  every value, and for a falsy value the payload of the empty selection. For a
  multi-select, a relation or a people field it returns a payload for every array, it
  throws exactly when the value is not an array, and for \<open>null\<close> and \<open>undefined\<close> what
  it throws is the type error of calling \<open>map\<close> on them.
\<close>

theorem dehydrateValue_total_cases:
  "((ftype f = T_select \<or> ftype f = T_status) \<longrightarrow>
      (\<exists>p. dehydrateValue md f v = Inr (Some p)) \<and>
      (falsy v \<longrightarrow>
         dehydrateValue md f v =
           Inr (Some (if ftype f = T_select then P_select None else P_status None))))
   \<and> ((ftype f = T_multi_select \<or> ftype f = T_relation \<or> ftype f = T_people) \<longrightarrow>
        ((\<exists>xs. v = JArr xs) \<longrightarrow> (\<exists>p. dehydrateValue md f v = Inr (Some p))) \<and>
        ((\<exists>e. dehydrateValue md f v = Inl e) \<longleftrightarrow> (\<forall>xs. v \<noteq> JArr xs)) \<and>
        ((v = JNull \<or> v = JUndefined) \<longrightarrow> dehydrateValue md f v = Inl TypeError))"
  by (cases "kind f"; cases v) (simp_all add: ftype_def dehydrateValue_def)

text \<open>
  Instances: \<open>null\<close> for a select field gives the empty selection; a list for a
  multi-select field gives a payload; \<open>null\<close> for a multi-select field is a type error.
\<close>

theorem dehydrateValue_total_cases_witness:
  "ftype \<lparr>label = ''Priority'', fid = None, kind = Select None\<rparr> = T_select
   \<and> falsy JNull
   \<and> dehydrateValue (\<lambda>s. []) \<lparr>label = ''Priority'', fid = None, kind = Select None\<rparr> JNull
       = Inr (Some (P_select None))
   \<and> ftype \<lparr>label = ''Tags'', fid = None, kind = MultiSelect None\<rparr> = T_multi_select
   \<and> (\<exists>p. dehydrateValue (\<lambda>s. []) \<lparr>label = ''Tags'', fid = None, kind = MultiSelect None\<rparr>
            (JArr [JStr ''a'', JStr ''b'']) = Inr (Some p))
   \<and> dehydrateValue (\<lambda>s. []) \<lparr>label = ''Tags'', fid = None, kind = MultiSelect None\<rparr> JNull
       = Inl TypeError"
proof -
  let ?md = "\<lambda>s::string. [] :: block list"
  let ?select = "\<lparr>label = ''Priority'', fid = None, kind = Select None\<rparr>"
  let ?tags = "\<lparr>label = ''Tags'', fid = None, kind = MultiSelect None\<rparr>"
  have s: "ftype ?select = T_select" and m: "ftype ?tags = T_multi_select"
    by (simp_all add: ftype_def)
  have f: "falsy JNull" by simp
  from dehydrateValue_total_cases[of ?select ?md JNull] s f
  have 1: "dehydrateValue ?md ?select JNull = Inr (Some (P_select None))" by simp
  from dehydrateValue_total_cases[of ?tags ?md "JArr [JStr ''a'', JStr ''b'']"] m
  have 2: "\<exists>p. dehydrateValue ?md ?tags (JArr [JStr ''a'', JStr ''b'']) = Inr (Some p)"
    by blast
  from dehydrateValue_total_cases[of ?tags ?md JNull] m
  have 3: "dehydrateValue ?md ?tags JNull = Inl TypeError" by blast
  from s f 1 m 2 3 show ?thesis by blast
qed

section \<open>applySchemaChanges: the loops\<close>

lemma fold_throwing_append:
  "fold_throwing g (xs @ ys) s =
     (case fold_throwing g xs s of Inl e \<Rightarrow> Inl e | Inr s' \<Rightarrow> fold_throwing g ys s')"
  by (induction xs arbitrary: s) (simp_all split: sum.splits)

lemma fold_throwing_returns:
  "(\<And>x s. x \<in> set xs \<Longrightarrow> \<exists>s'. g x s = Inr s') \<Longrightarrow> \<exists>s'. fold_throwing g xs s = Inr s'"
proof (induction xs arbitrary: s)
  case Nil
  then show ?case by simp
next
  case (Cons x xs)
  from Cons.prems[of x s] obtain s' where s': "g x s = Inr s'" by auto
  from Cons.IH[of s'] Cons.prems obtain s'' where "fold_throwing g xs s' = Inr s''"
    by auto
  with s' show ?case by simp
qed

lemma schema_lookup_own: "map_of ls k = Some f \<Longrightarrow> schema_lookup ls k = Some (Own f)"
  by (simp add: schema_lookup_def object_get_def)

lemma schema_lookup_absent:
  "map_of ls k = None \<Longrightarrow>
     schema_lookup ls k = (if k \<in> set OBJECT_PROTOTYPE then Some Inherited else None)"
  by (simp add: schema_lookup_def object_get_def)

lemma apply_added_returns:
  assumes "\<not> inherited_key ls d"
  shows "\<exists>r'. apply_added ls d r = Inr r'"
proof (cases d)
  case (Added key f)
  show ?thesis
  proof (cases "map_of ls key")
    case None
    then have "key \<notin> fst ` set ls" by (simp add: map_of_eq_None_iff)
    with assms Added have "key \<notin> set OBJECT_PROTOTYPE" by (simp add: inherited_key_def)
    with None Added show ?thesis by (simp add: schema_lookup_absent)
  next
    case (Some g)
    with Added show ?thesis by (simp add: schema_lookup_own toPropertyDefinition_def)
  qed
qed simp_all

lemma apply_modified_returns:
  assumes "\<not> inherited_key ls d"
  shows "\<exists>r'. apply_modified ls d r = Inr r'"
proof (cases d)
  case (Modified key fk did ff tf ch)
  show ?thesis
  proof (cases "map_of ls key")
    case None
    then have "key \<notin> fst ` set ls" by (simp add: map_of_eq_None_iff)
    with assms Modified have "key \<notin> set OBJECT_PROTOTYPE" by (simp add: inherited_key_def)
    with None Modified show ?thesis by (simp add: schema_lookup_absent)
  next
    case (Some g)
    with Modified show ?thesis
      by (simp add: schema_lookup_own toPropertyDefinition_def Let_def)
  qed
qed simp_all

section \<open>applySchemaChanges: the result object\<close>

lemma assign_other:
  "l \<noteq> k \<Longrightarrow> map_of (own_properties (assign l v r)) k = map_of (own_properties r) k"
  by (simp add: assign_def update_conv')

lemma assign_same:
  "k \<noteq> ''__proto__'' \<Longrightarrow> map_of (own_properties (assign k v r)) k = Some v"
  by (simp add: assign_def update_conv')

lemma fold_apply_removed:
  assumes "k \<noteq> ''__proto__''"
  shows "map_of (own_properties (fold apply_removed rs r)) k =
     (if \<exists>d\<in>set rs. is_Removed d \<and> label (d_field d) = k then Some None
      else map_of (own_properties r) k)"
proof (induction rs arbitrary: r)
  case Nil
  then show ?case by simp
next
  case (Cons d rs)
  show ?case
  proof (cases d)
    case (Removed key f)
    show ?thesis
    proof (cases "label f = k")
      case True
      with Removed assms show ?thesis by (simp add: Cons.IH assign_same)
    next
      case False
      with Removed show ?thesis by (auto simp: Cons.IH assign_other)
    qed
  next
    case (Added key f)
    then show ?thesis by (simp add: Cons.IH)
  next
    case (Modified key fk did ff tf ch)
    then show ?thesis by (simp add: Cons.IH)
  qed
qed

lemma fold_apply_removed_other:
  "\<forall>d\<in>set rs. is_Removed d \<longrightarrow> label (d_field d) \<noteq> k \<Longrightarrow>
     map_of (own_properties (fold apply_removed rs r)) k = map_of (own_properties r) k"
proof (induction rs arbitrary: r)
  case Nil
  then show ?case by simp
next
  case (Cons d rs)
  then show ?case by (cases d) (simp_all add: assign_other)
qed

lemma filter_Added_not_Removed:
  "filter (\<lambda>d. \<not> is_Removed d \<and> is_Added d) ds = filter is_Added ds"
  by (rule filter_cong) (auto simp: is_Added_def is_Removed_def)

lemma filter_Modified_not_Removed:
  "filter (\<lambda>d. \<not> is_Removed d \<and> is_Modified d) ds = filter is_Modified ds"
  by (rule filter_cong) (auto simp: is_Modified_def is_Removed_def)

text \<open>The result object after the loops over the added and the modified diffs.\<close>

lemma loops_return:
  assumes "\<forall>d\<in>set ds. \<not> inherited_key ls d"
  shows "\<exists>a b. fold_throwing (apply_added ls) (filter is_Added ds)
                 \<lparr>own_properties = [], prototype_null = False\<rparr> = Inr a
              \<and> fold_throwing (apply_modified ls) (filter is_Modified ds) a = Inr b"
proof -
  from assms have "\<And>x s. x \<in> set (filter is_Added ds) \<Longrightarrow> \<exists>s'. apply_added ls x s = Inr s'"
    by (simp add: apply_added_returns)
  from fold_throwing_returns[of "filter is_Added ds" "apply_added ls", OF this]
  obtain a where a: "fold_throwing (apply_added ls) (filter is_Added ds)
                 \<lparr>own_properties = [], prototype_null = False\<rparr> = Inr a" by blast
  from assms have "\<And>x s. x \<in> set (filter is_Modified ds) \<Longrightarrow> \<exists>s'. apply_modified ls x s = Inr s'"
    by (simp add: apply_modified_returns)
  from fold_throwing_returns[of "filter is_Modified ds" "apply_modified ls", OF this]
  obtain b where "fold_throwing (apply_modified ls) (filter is_Modified ds) a = Inr b"
    by blast
  with a show ?thesis by blast
qed

lemma applySchemaChanges_after_loops:
  assumes "fold_throwing (apply_added ls) (filter is_Added ds)
             \<lparr>own_properties = [], prototype_null = False\<rparr> = Inr a"
    and "fold_throwing (apply_modified ls) (filter is_Modified ds) a = Inr b"
  shows "applySchemaChanges ls ds strategy =
     (case strategy of
        Merge \<Rightarrow> Inr (own_properties b)
      | Overwrite \<Rightarrow> Inr (own_properties (fold apply_removed (filter is_Removed ds) b))
      | Strict \<Rightarrow>
          if filter is_Removed ds = [] then Inr (own_properties b)
          else Inl (Error (''Unrecognized remote fields: '' @
                           join '', '' (map d_key (filter is_Removed ds)))))"
  by (cases strategy; cases "filter is_Removed ds = []")
     (simp_all add: applySchemaChanges_def Let_def assms)

text \<open>
  Claim C3, as amended. Let no added or modified diff have a key that the local schema
  lacks and every object inherits. With at least one removed diff, \<open>strict\<close> throws,
  and the result is the error alone: its message lists the keys of all removed diffs, in
  diff order, joined by a comma and a space. A call throws exactly when the strategy is
  \<open>strict\<close> and there is a removed diff. Under \<open>merge\<close> the removed diffs contribute
  nothing: the result is that of the diff list without them. Under \<open>overwrite\<close> the
  result is the \<open>merge\<close> result with \<open>null\<close> stored under the label of every removed
  field, the label \<open>__proto__\<close> apart.
\<close>

theorem applySchemaChanges_removed:
  assumes "\<forall>d\<in>set ds. \<not> inherited_key ls d"
  shows "(filter is_Removed ds \<noteq> [] \<longrightarrow>
      applySchemaChanges ls ds Strict =
        Inl (Error (''Unrecognized remote fields: '' @
                    join '', '' (map d_key (filter is_Removed ds)))))
   \<and> ((\<exists>e. applySchemaChanges ls ds strategy = Inl e) \<longleftrightarrow>
        strategy = Strict \<and> filter is_Removed ds \<noteq> [])
   \<and> applySchemaChanges ls ds Merge =
       applySchemaChanges ls (filter (\<lambda>d. \<not> is_Removed d) ds) Merge
   \<and> (\<forall>r m k. applySchemaChanges ls ds Overwrite = Inr r \<and>
               applySchemaChanges ls ds Merge = Inr m \<and> k \<noteq> ''__proto__'' \<longrightarrow>
        map_of r k =
          (if \<exists>d\<in>set ds. is_Removed d \<and> label (d_field d) = k then Some None
           else map_of m k))"
proof -
  from loops_return[OF assms] obtain a b
    where a: "fold_throwing (apply_added ls) (filter is_Added ds)
                 \<lparr>own_properties = [], prototype_null = False\<rparr> = Inr a"
      and b: "fold_throwing (apply_modified ls) (filter is_Modified ds) a = Inr b"
    by blast
  note after = applySchemaChanges_after_loops[OF a b]
  have strict: "applySchemaChanges ls ds Strict =
        (if filter is_Removed ds = [] then Inr (own_properties b)
         else Inl (Error (''Unrecognized remote fields: '' @
                    join '', '' (map d_key (filter is_Removed ds)))))"
    by (simp add: after)
  have merge: "applySchemaChanges ls ds Merge = Inr (own_properties b)"
    by (simp add: after)
  have over: "applySchemaChanges ls ds Overwrite =
                Inr (own_properties (fold apply_removed (filter is_Removed ds) b))"
    by (simp add: after)
  have c1: "filter is_Removed ds \<noteq> [] \<longrightarrow>
      applySchemaChanges ls ds Strict =
        Inl (Error (''Unrecognized remote fields: '' @
                    join '', '' (map d_key (filter is_Removed ds))))"
    by (simp add: strict)
  have c2: "(\<exists>e. applySchemaChanges ls ds strategy = Inl e) \<longleftrightarrow>
        strategy = Strict \<and> filter is_Removed ds \<noteq> []"
    by (cases strategy) (simp_all add: strict merge over)
  have c3: "applySchemaChanges ls ds Merge =
       applySchemaChanges ls (filter (\<lambda>d. \<not> is_Removed d) ds) Merge"
    by (simp add: applySchemaChanges_def Let_def
          filter_Added_not_Removed filter_Modified_not_Removed split: sum.splits)
  have c4: "map_of r k =
          (if \<exists>d\<in>set ds. is_Removed d \<and> label (d_field d) = k then Some None
           else map_of m k)"
    if "applySchemaChanges ls ds Overwrite = Inr r" "applySchemaChanges ls ds Merge = Inr m"
       "k \<noteq> ''__proto__''" for r m k
  proof -
    from that(1,2) have r: "r = own_properties (fold apply_removed (filter is_Removed ds) b)"
      and m: "m = own_properties b" by (simp_all add: over merge)
    show ?thesis unfolding r m fold_apply_removed[OF that(3)] by auto
  qed
  from c1 c2 c3 c4 show ?thesis by blast
qed

text \<open>
  The strict-mode scenario of the specification, and the same diffs under \<open>overwrite\<close>
  and \<open>merge\<close> after an added field.
\<close>

theorem applySchemaChanges_removed_witness:
  "\<not> inherited_key [] (Removed ''foo'' \<lparr>label = ''Foo'', fid = None, kind = RichText\<rparr>)
   \<and> \<not> inherited_key [] (Removed ''bar'' \<lparr>label = ''Bar'', fid = None, kind = RichText\<rparr>)
   \<and> applySchemaChanges []
      [Removed ''foo'' \<lparr>label = ''Foo'', fid = None, kind = RichText\<rparr>,
       Removed ''bar'' \<lparr>label = ''Bar'', fid = None, kind = RichText\<rparr>] Strict
     = Inl (Error ''Unrecognized remote fields: foo, bar'')
   \<and> applySchemaChanges [(''name'', \<lparr>label = ''Name'', fid = None, kind = Title\<rparr>)]
      [Added ''name'' \<lparr>label = ''Name'', fid = None, kind = Title\<rparr>,
       Removed ''foo'' \<lparr>label = ''Foo'', fid = None, kind = RichText\<rparr>] Merge
     = Inr [(''Name'', Some \<lparr>def_id = None, def_name = None, def_body = D_title\<rparr>)]
   \<and> (\<exists>r. applySchemaChanges [(''name'', \<lparr>label = ''Name'', fid = None, kind = Title\<rparr>)]
      [Added ''name'' \<lparr>label = ''Name'', fid = None, kind = Title\<rparr>,
       Removed ''foo'' \<lparr>label = ''Foo'', fid = None, kind = RichText\<rparr>] Overwrite = Inr r
       \<and> map_of r ''Foo'' = Some None
       \<and> map_of r ''Name''
           = Some (Some \<lparr>def_id = None, def_name = None, def_body = D_title\<rparr>))"
proof -
  let ?foo = "Removed ''foo'' \<lparr>label = ''Foo'', fid = None, kind = RichText\<rparr>"
  let ?bar = "Removed ''bar'' \<lparr>label = ''Bar'', fid = None, kind = RichText\<rparr>"
  let ?f = "\<lparr>label = ''Name'', fid = None, kind = Title\<rparr>"
  let ?ls = "[(''name'', ?f)]"
  let ?ds = "[Added ''name'' ?f, ?foo]"
  let ?defn = "\<lparr>def_id = None, def_name = None, def_body = D_title\<rparr>"
  have a: "\<forall>d\<in>set [?foo, ?bar]. \<not> inherited_key [] d" by (simp add: inherited_key_def)
  have b: "\<forall>d\<in>set ?ds. \<not> inherited_key ?ls d"
    by (simp add: inherited_key_def OBJECT_PROTOTYPE_def)
  from applySchemaChanges_removed[OF a, of Strict]
  have s: "applySchemaChanges [] [?foo, ?bar] Strict
             = Inl (Error ''Unrecognized remote fields: foo, bar'')"
    by simp
  have m: "applySchemaChanges ?ls ?ds Merge = Inr [(''Name'', Some ?defn)]"
    by (simp add: applySchemaChanges_def schema_lookup_def object_get_def
          toPropertyDefinition_def assign_def label_of_def)
  from applySchemaChanges_removed[OF b, of Overwrite]
  obtain r where r: "applySchemaChanges ?ls ?ds Overwrite = Inr r"
    by (cases "applySchemaChanges ?ls ?ds Overwrite") auto
  from applySchemaChanges_removed[OF b, of Overwrite] r m
  have at: "\<And>k. k \<noteq> ''__proto__'' \<Longrightarrow> map_of r k =
          (if \<exists>d\<in>set ?ds. is_Removed d \<and> label (d_field d) = k then Some None
           else map_of [(''Name'', Some ?defn)] k)"
    by blast
  from at[of "''Foo''"] have foo: "map_of r ''Foo'' = Some None" by simp
  from at[of "''Name''"] have name: "map_of r ''Name'' = Some (Some ?defn)" by simp
  from a have "\<not> inherited_key [] ?foo" "\<not> inherited_key [] ?bar" by simp_all
  with s m r foo name show ?thesis by blast
qed

text \<open>
  An added diff whose key the local schema does not have and every object inherits:
  \<open>merge\<close> throws, and \<open>strict\<close> throws that error and not the list of the removed
  keys. A removed field with the label \<open>__proto__\<close>: \<open>overwrite\<close> stores nothing.
\<close>

theorem applySchemaChanges_removed_counterexample:
  "applySchemaChanges []
      [Added ''constructor'' \<lparr>label = ''Constructor'', fid = None, kind = RichText\<rparr>] Merge
     = Inl (Error ''Unsupported field type: undefined'')
   \<and> applySchemaChanges []
      [Added ''constructor'' \<lparr>label = ''Constructor'', fid = None, kind = RichText\<rparr>,
       Removed ''foo'' \<lparr>label = ''Foo'', fid = None, kind = RichText\<rparr>] Strict
     = Inl (Error ''Unsupported field type: undefined'')
   \<and> applySchemaChanges []
      [Removed ''old'' \<lparr>label = ''__proto__'', fid = None, kind = RichText\<rparr>] Overwrite
     = Inr []"
  by (simp add: applySchemaChanges_def schema_lookup_def object_get_def OBJECT_PROTOTYPE_def
        toPropertyDefinition_def assign_def)

section \<open>applySchemaChanges: modified fields\<close>

lemma apply_modified_other:
  assumes "apply_modified ls d r = Inr r'" and "modified_target ls d \<noteq> Some k"
  shows "map_of (own_properties r') k = map_of (own_properties r) k"
proof (cases d)
  case (Modified key fk did ff tf ch)
  show ?thesis
  proof (cases "map_of ls key")
    case None
    with assms(1) Modified show ?thesis
      by (simp add: schema_lookup_absent toPropertyDefinition_def split: if_splits)
  next
    case (Some f)
    with assms Modified show ?thesis
      by (auto simp: schema_lookup_own toPropertyDefinition_def Let_def label_of_def
            assign_other split: if_splits)
  qed
next
  case (Added key f)
  with assms(1) show ?thesis by simp
next
  case (Removed key f)
  with assms(1) show ?thesis by simp
qed

lemma fold_apply_modified_other:
  "fold_throwing (apply_modified ls) ms r = Inr r' \<Longrightarrow>
   \<forall>d\<in>set ms. modified_target ls d \<noteq> Some k \<Longrightarrow>
     map_of (own_properties r') k = map_of (own_properties r) k"
proof (induction ms arbitrary: r)
  case Nil
  then show ?case by simp
next
  case (Cons d ms)
  from Cons.prems(1) obtain r1 where r1: "apply_modified ls d r = Inr r1"
    and rest: "fold_throwing (apply_modified ls) ms r1 = Inr r'"
    by (auto split: sum.splits)
  from Cons.IH[OF rest] Cons.prems(2) apply_modified_other[OF r1, of k]
  show ?case by simp
qed

lemma apply_modified_written:
  assumes "map_of ls key = Some f"
    and "(if ''label'' \<in> set ch then label ff else label f) \<noteq> ''__proto__''"
  shows "\<exists>r' defn. apply_modified ls (Modified key fk did ff tf ch) r = Inr r'
      \<and> map_of (own_properties r') (if ''label'' \<in> set ch then label ff else label f)
          = Some (Some defn)
      \<and> def_name defn = (if ''label'' \<in> set ch then Some (label f) else None)
      \<and> def_body defn = definition_body_of (kind f)
      \<and> def_id defn =
          (case did of
             Some i \<Rightarrow> if i = [] then fid f else Some i
           | None \<Rightarrow> if truthy_str (fid ff) then fid ff else fid f)"
  using assms
  by (cases did)
     (auto simp: schema_lookup_own toPropertyDefinition_def Let_def label_of_def
        assign_same truthy_str_def)

text \<open>
  Claim C5, as amended. Let a modified diff be processed in a call that returns, whose
  key is a key of the local schema, where the key of the result that it writes is not
  \<open>__proto__\<close>, no later modified diff writes under the same key and, under
  \<open>overwrite\<close>, no removed field has that label. When its changes include \<open>label\<close>, the
  result holds a definition under the old (\<open>from\<close>) label whose \<open>name\<close> is the local
  field's label; otherwise it holds a definition without \<open>name\<close> under the local
  field's label. The definition's id is the diff's id when the diff has one that is not
  empty; the \<open>from\<close> field's id when the diff has no id and that one is not empty; and
  the local field's own id in every other case, also when the diff's id is the empty
  string and the \<open>from\<close> field has an id.
\<close>

theorem applySchemaChanges_modified:
  assumes "applySchemaChanges ls (pre @ Modified key fk did ff tf ch # post) strategy = Inr r"
    and "map_of ls key = Some f"
    and "(if ''label'' \<in> set ch then label ff else label f) \<noteq> ''__proto__''"
    and "\<forall>d\<in>set post. modified_target ls d
            \<noteq> Some (if ''label'' \<in> set ch then label ff else label f)"
    and "strategy = Overwrite \<longrightarrow>
           (\<forall>d\<in>set (pre @ post). is_Removed d \<longrightarrow>
              label (d_field d) \<noteq> (if ''label'' \<in> set ch then label ff else label f))"
  shows "\<exists>defn. map_of r (if ''label'' \<in> set ch then label ff else label f) = Some (Some defn)
      \<and> def_name defn = (if ''label'' \<in> set ch then Some (label f) else None)
      \<and> def_body defn = definition_body_of (kind f)
      \<and> def_id defn =
          (case did of
             Some i \<Rightarrow> if i = [] then fid f else Some i
           | None \<Rightarrow> if truthy_str (fid ff) then fid ff else fid f)"
proof -
  let ?ds = "pre @ Modified key fk did ff tf ch # post"
  let ?k = "if ''label'' \<in> set ch then label ff else label f"
  let ?d = "Modified key fk did ff tf ch"
  let ?g = "apply_modified ls"
  from assms(1) obtain a b
    where a: "fold_throwing (apply_added ls) (filter is_Added ?ds)
                 \<lparr>own_properties = [], prototype_null = False\<rparr> = Inr a"
      and b: "fold_throwing ?g (filter is_Modified ?ds) a = Inr b"
    by (auto simp: applySchemaChanges_def Let_def split: sum.splits)
  have ms: "filter is_Modified ?ds = filter is_Modified pre @ [?d] @ filter is_Modified post"
    by simp
  from b obtain r0 r1 where r0: "fold_throwing ?g (filter is_Modified pre) a = Inr r0"
    and r1: "?g ?d r0 = Inr r1"
    and post: "fold_throwing ?g (filter is_Modified post) r1 = Inr b"
    unfolding ms fold_throwing_append by (auto split: sum.splits)
  from apply_modified_written[OF assms(2,3), of fk did tf r0] r1
  obtain defn where w: "map_of (own_properties r1) ?k = Some (Some defn)"
    and n: "def_name defn = (if ''label'' \<in> set ch then Some (label f) else None)"
    and bd: "def_body defn = definition_body_of (kind f)"
    and i: "def_id defn =
          (case did of
             Some i \<Rightarrow> if i = [] then fid f else Some i
           | None \<Rightarrow> if truthy_str (fid ff) then fid ff else fid f)"
    by auto
  have "\<forall>d\<in>set (filter is_Modified post). modified_target ls d \<noteq> Some ?k"
    using assms(4) by simp
  from fold_apply_modified_other[OF post this] w
  have at_b: "map_of (own_properties b) ?k = Some (Some defn)" by simp
  note after = applySchemaChanges_after_loops[OF a b, of strategy]
  have at_r: "map_of r ?k = map_of (own_properties b) ?k"
  proof (cases strategy)
    case Merge
    with assms(1) after have "r = own_properties b" by simp
    then show ?thesis by simp
  next
    case Overwrite
    with assms(1) after
    have "r = own_properties (fold apply_removed (filter is_Removed ?ds) b)" by simp
    moreover have "\<forall>d\<in>set (filter is_Removed ?ds). is_Removed d \<longrightarrow> label (d_field d) \<noteq> ?k"
      using assms(5) Overwrite by auto
    ultimately show ?thesis by (simp only: fold_apply_removed_other)
  next
    case Strict
    with assms(1) after have "r = own_properties b" by (simp split: if_splits)
    then show ?thesis by simp
  qed
  from at_b at_r n bd i show ?thesis by simp
qed

text \<open>
  A key rename with a label rename, matched by id, between an added and a removed field
  under \<open>overwrite\<close>: the entry is under the old label, named with the new one, and
  carries the diff's id. A type change without an id on the diff: the entry is under the
  current label and carries the id of the \<open>from\<close> field.
\<close>

theorem applySchemaChanges_modified_witness:
  "applySchemaChanges
      [(''fullName'', \<lparr>label = ''Full Name'', fid = Some ''loc'', kind = Title\<rparr>),
       (''age'', \<lparr>label = ''Age'', fid = None, kind = Number None\<rparr>)]
      ([Added ''age'' \<lparr>label = ''Age'', fid = None, kind = Number None\<rparr>] @
       Modified ''fullName'' (Some ''name'') (Some ''rem'')
         \<lparr>label = ''Name'', fid = Some ''src'', kind = Title\<rparr>
         \<lparr>label = ''Full Name'', fid = Some ''loc'', kind = Title\<rparr> [''key'', ''label''] #
       [Removed ''old'' \<lparr>label = ''Old'', fid = None, kind = RichText\<rparr>])
      Overwrite
     = Inr [(''Age'', Some \<lparr>def_id = None, def_name = None, def_body = D_number ''number''\<rparr>),
            (''Name'',
             Some \<lparr>def_id = Some ''rem'', def_name = Some ''Full Name'', def_body = D_title\<rparr>),
            (''Old'', None)]
   \<and> (\<exists>defn. map_of
          [(''Age'', Some \<lparr>def_id = None, def_name = None, def_body = D_number ''number''\<rparr>),
           (''Name'',
            Some \<lparr>def_id = Some ''rem'', def_name = Some ''Full Name'', def_body = D_title\<rparr>),
           (''Old'', None)] ''Name'' = Some (Some defn)
        \<and> def_name defn = Some ''Full Name'' \<and> def_body defn = D_title
        \<and> def_id defn = Some ''rem'')
   \<and> applySchemaChanges
      [(''fullName'', \<lparr>label = ''Full Name'', fid = Some ''loc'', kind = Title\<rparr>),
       (''age'', \<lparr>label = ''Age'', fid = None, kind = Number None\<rparr>)]
      ([] @ Modified ''age'' None None
         \<lparr>label = ''Age'', fid = Some ''src'', kind = RichText\<rparr>
         \<lparr>label = ''Age'', fid = None, kind = Number None\<rparr> [''type''] # [])
      Merge
     = Inr [(''Age'', Some \<lparr>def_id = Some ''src'', def_name = None,
                            def_body = D_number ''number''\<rparr>)]
   \<and> (\<exists>defn. map_of
          [(''Age'', Some \<lparr>def_id = Some ''src'', def_name = None,
                           def_body = D_number ''number''\<rparr>)] ''Age'' = Some (Some defn)
        \<and> def_name defn = None \<and> def_body defn = D_number ''number''
        \<and> def_id defn = Some ''src'')"
proof -
  let ?full = "\<lparr>label = ''Full Name'', fid = Some ''loc'', kind = Title\<rparr>"
  let ?age = "\<lparr>label = ''Age'', fid = None, kind = Number None\<rparr>"
  let ?ls = "[(''fullName'', ?full), (''age'', ?age)]"
  let ?name = "\<lparr>label = ''Name'', fid = Some ''src'', kind = Title\<rparr>"
  let ?old = "\<lparr>label = ''Old'', fid = None, kind = RichText\<rparr>"
  let ?text = "\<lparr>label = ''Age'', fid = Some ''src'', kind = RichText\<rparr>"
  let ?r1 = "[(''Age'', Some \<lparr>def_id = None, def_name = None, def_body = D_number ''number''\<rparr>),
            (''Name'',
             Some \<lparr>def_id = Some ''rem'', def_name = Some ''Full Name'', def_body = D_title\<rparr>),
            (''Old'', None)]"
  let ?r2 = "[(''Age'', Some \<lparr>def_id = Some ''src'', def_name = None,
                            def_body = D_number ''number''\<rparr>)]"
  note defs = applySchemaChanges_def schema_lookup_def object_get_def toPropertyDefinition_def
    assign_def label_of_def truthy_str_def
  have a1: "applySchemaChanges ?ls
             ([Added ''age'' ?age] @
              Modified ''fullName'' (Some ''name'') (Some ''rem'') ?name ?full [''key'', ''label''] #
              [Removed ''old'' ?old]) Overwrite = Inr ?r1"
    by (simp add: defs)
  have b1: "map_of ?ls ''fullName'' = Some ?full" by simp
  have c1: "(if ''label'' \<in> set [''key'', ''label''] then label ?name else label ?full)
              \<noteq> ''__proto__''" by simp
  have d1: "\<forall>d\<in>set [Removed ''old'' ?old]. modified_target ?ls d
            \<noteq> Some (if ''label'' \<in> set [''key'', ''label''] then label ?name else label ?full)"
    by simp
  have e1: "Overwrite = Overwrite \<longrightarrow>
           (\<forall>d\<in>set ([Added ''age'' ?age] @ [Removed ''old'' ?old]). is_Removed d \<longrightarrow>
              label (d_field d)
                \<noteq> (if ''label'' \<in> set [''key'', ''label''] then label ?name else label ?full))"
    by simp
  from applySchemaChanges_modified[OF a1 b1 c1 d1 e1]
  have w1: "\<exists>defn. map_of ?r1 ''Name'' = Some (Some defn)
        \<and> def_name defn = Some ''Full Name'' \<and> def_body defn = D_title
        \<and> def_id defn = Some ''rem''"
    by simp
  have a2: "applySchemaChanges ?ls
             ([] @ Modified ''age'' None None ?text ?age [''type''] # []) Merge = Inr ?r2"
    by (simp add: defs)
  have b2: "map_of ?ls ''age'' = Some ?age" by simp
  have c2: "(if ''label'' \<in> set [''type''] then label ?text else label ?age) \<noteq> ''__proto__''"
    by simp
  have d2: "\<forall>d\<in>set []. modified_target ?ls d
            \<noteq> Some (if ''label'' \<in> set [''type''] then label ?text else label ?age)"
    by simp
  have e2: "Merge = Overwrite \<longrightarrow>
           (\<forall>d\<in>set ([] @ []). is_Removed d \<longrightarrow>
              label (d_field d) \<noteq> (if ''label'' \<in> set [''type''] then label ?text else label ?age))"
    by simp
  from applySchemaChanges_modified[OF a2 b2 c2 d2 e2]
  have w2: "\<exists>defn. map_of ?r2 ''Age'' = Some (Some defn)
        \<and> def_name defn = None \<and> def_body defn = D_number ''number''
        \<and> def_id defn = Some ''src''"
    by (simp add: truthy_str_def)
  from a1 w1 a2 w2 show ?thesis by blast
qed

text \<open>
  A diff whose id is the empty string, with a \<open>from\<close> field that has the id \<open>abc\<close> and
  a local field without id: the definition carries no id.
\<close>

theorem applySchemaChanges_modified_counterexample:
  "applySchemaChanges
      [(''name'', \<lparr>label = ''Name'', fid = None, kind = Title\<rparr>)]
      [Modified ''name'' None (Some [])
         \<lparr>label = ''Name'', fid = Some ''abc'', kind = RichText\<rparr>
         \<lparr>label = ''Name'', fid = None, kind = Title\<rparr> [''type'']]
      Merge
     = Inr [(''Name'', Some \<lparr>def_id = None, def_name = None, def_body = D_title\<rparr>)]"
  by (simp add: applySchemaChanges_def schema_lookup_def object_get_def
        toPropertyDefinition_def assign_def label_of_def truthy_str_def)

section \<open>buildUpsertFilter\<close>

lemma truthy_conv: "truthy v \<longleftrightarrow> \<not> falsy v"
proof (cases v)
  case (JNum n)
  then show ?thesis by (cases n) simp_all
qed simp_all










section \<open>The codec: option vocabularies\<close>

lemma index_last_find: "index_last g xs k = find (\<lambda>x. g x = Some k) (rev xs)"
proof (induction xs rule: rev_induct)
  case Nil
  then show ?case by (simp add: index_last_Nil)
next
  case (snoc x xs)
  then show ?case by (cases "g x") (simp_all add: index_last_snoc)
qed

lemma set_key_to_name_conv:
  "set_key_to_name opts m = fold (\<lambda>p m. m(fst p \<mapsto> snd p)) (option_pairs opts) m"
  by (cases opts) (simp_all add: set_key_to_name_def option_pairs_def fold_map comp_def split_def)

lemma set_name_to_key_conv:
  "set_name_to_key opts m = fold (\<lambda>p m. m(snd p \<mapsto> fst p)) (option_pairs opts) m"
  by (cases opts) (simp_all add: set_name_to_key_def option_pairs_def fold_map comp_def split_def)

lemma status_key_to_name_conv:
  "fold (\<lambda>(gk, g) m. set_key_to_name (sg_options g) m) gs m =
     fold (\<lambda>p m. m(fst p \<mapsto> snd p)) (status_pairs gs) m"
  by (induction gs arbitrary: m)
     (simp_all add: status_pairs_def set_key_to_name_conv split_def)

lemma status_name_to_key_conv:
  "fold (\<lambda>(gk, g) m. set_name_to_key (sg_options g) m) gs m =
     fold (\<lambda>p m. m(snd p \<mapsto> fst p)) (status_pairs gs) m"
  by (induction gs arbitrary: m)
     (simp_all add: status_pairs_def set_name_to_key_conv split_def)

lemma fold_key_conv:
  "fold (\<lambda>p m. m(fst p \<mapsto> snd p)) ps Map.empty k
     = map_option snd (find (\<lambda>p. fst p = k) (rev ps))"
  by (induction ps rule: rev_induct) simp_all

lemma fold_name_conv:
  "fold (\<lambda>p m. m(snd p \<mapsto> fst p)) ps Map.empty n
     = map_option fst (find (\<lambda>p. snd p = n) (rev ps))"
  by (induction ps rule: rev_induct) simp_all

lemma buildKeyToNameMap_conv: "buildKeyToNameMap opts = key_to_name (map_option option_pairs opts)"
  by (cases opts) (simp_all add: buildKeyToNameMap_def key_to_name_def set_key_to_name_conv)

lemma buildNameToKeyMap_conv: "buildNameToKeyMap opts = name_to_key (map_option option_pairs opts)"
  by (cases opts) (simp_all add: buildNameToKeyMap_def name_to_key_def set_name_to_key_conv)

lemma buildStatusKeyToNameMap_conv:
  "buildStatusKeyToNameMap gs = key_to_name (map_option status_pairs gs)"
  by (cases gs) (simp_all add: buildStatusKeyToNameMap_def key_to_name_def status_key_to_name_conv)

lemma buildStatusNameToKeyMap_conv:
  "buildStatusNameToKeyMap gs = name_to_key (map_option status_pairs gs)"
  by (cases gs) (simp_all add: buildStatusNameToKeyMap_def name_to_key_def status_name_to_key_conv)

lemma get_key_to_name:
  "get_or_self (key_to_name (Some ps)) (JStr s) = JStr (display_name ps s)"
  by (simp add: get_or_self_def key_to_name_def fold_key_conv display_name_def
        split: option.splits)

lemma get_name_to_key:
  "get_or_self (name_to_key (Some ps)) (JStr n) = JStr (local_key ps n)"
  by (simp add: get_or_self_def name_to_key_def fold_name_conv local_key_def
        split: option.splits)

lemma get_or_self_empty: "get_or_self Map.empty v = v"
  by (cases v) (simp_all add: get_or_self_def)

lemma get_or_self_not_string: "(\<And>s. v \<noteq> JStr s) \<Longrightarrow> get_or_self m v = v"
  by (cases v) (auto simp: get_or_self_def)

text \<open>An option value through the two maps of a declared vocabulary.\<close>

lemma there_and_back:
  "get_or_self (name_to_key (Some ps)) (get_or_self (key_to_name (Some ps)) v) = v
     \<longleftrightarrow> comes_back (Some ps) v"
proof (cases "\<exists>s. v = JStr s")
  case True
  then obtain s where "v = JStr s" by blast
  then show ?thesis by (simp add: get_key_to_name get_name_to_key comes_back_def)
next
  case False
  then have "\<And>s. v \<noteq> JStr s" by blast
  then show ?thesis by (cases v) (auto simp: get_or_self_not_string comes_back_def)
qed

lemma name_falsy:
  assumes "\<not> falsy v"
  shows "\<not> falsy (get_or_self (key_to_name (Some ps)) v) \<longleftrightarrow> named (Some ps) v"
proof (cases "\<exists>s. v = JStr s")
  case True
  then obtain s where "v = JStr s" by blast
  then show ?thesis by (simp add: get_key_to_name named_def)
next
  case False
  then have "\<And>s. v \<noteq> JStr s" by blast
  with assms show ?thesis by (cases v) (auto simp: get_or_self_not_string named_def)
qed

lemma no_vocabulary: "named None v" "comes_back None v"
  by (cases v; simp add: named_def comes_back_def)+

lemma key_to_name_None: "key_to_name None = Map.empty"
  by (simp add: key_to_name_def)

section \<open>The codec: text values\<close>

lemma plain_text_set_link: "plain_text (set_link url c) = plain_text c"
  by (simp add: set_link_def split: rich_text_body.splits)

lemma plain_text_convertInlineNode:
  "map plain_text (convertInlineNode inherited n) = inline_texts n"
proof (induction inherited n rule: convertInlineNode.induct)
  case (6 inherited url children)
  have "map plain_text (map (set_link url) (concat (map (convertInlineNode inherited) children)))
          = concat (map (\<lambda>c. map plain_text (convertInlineNode inherited c)) children)"
    by (simp add: map_concat comp_def plain_text_set_link)
  also have "\<dots> = concat (map inline_texts children)"
    using 6 by (simp cong: map_cong)
  finally show ?case by simp
qed (simp_all add: createRichText_def map_concat comp_def cong: map_cong)

lemma plain_text_convertInlineNodes:
  "map plain_text (convertInlineNodes cs inherited) = concat (map inline_texts cs)"
  by (simp add: convertInlineNodes_def map_concat comp_def plain_text_convertInlineNode)

lemma plain_text_convert_blocks:
  "map plain_text (convert_blocks bs acc) = text_runs (paragraphs_of bs) (map plain_text acc)"
  by (induction bs acc rule: convert_blocks.induct)
     (simp_all add: paragraphs_of_def map_filter_simps plain_text_convertInlineNodes
        createRichText_def)

lemma hydrate_text:
  "join_plain_text (toRichText md (JStr s)) = Inr (JStr (markdown_text md s))"
proof -
  let ?rs = "convert_blocks (md s) []"
  have runs: "text_runs (paragraphs_of (md s)) [] = map plain_text ?rs"
    using plain_text_convert_blocks[of "md s" "[]"] by simp
  show ?thesis
  proof (cases "?rs = []")
    case True
    with runs show ?thesis
      by (simp add: toRichText_def join_plain_text_def markdown_text_def)
  next
    case False
    have "concat (map plain_text_of (map JRichText ?rs)) = concat (map plain_text ?rs)"
      by (simp add: comp_def)
    moreover have "\<not> list_ex (\<lambda>t. t = JUndefined \<or> t = JNull) (map JRichText ?rs)"
      by (simp add: list_ex_iff)
    ultimately show ?thesis using False runs
      by (simp add: toRichText_def join_plain_text_def markdown_text_def Let_def)
  qed
qed

lemma hydrate_text_other:
  assumes "\<And>s. v \<noteq> JStr s"
  shows "join_plain_text (toRichText md v) \<noteq> Inr v"
  using assms
  by (cases v) (auto simp: toRichText_def join_plain_text_def)

section \<open>The codec: round trip\<close>

lemma roundtrip_text:
  "(join_plain_text (toRichText md v) = Inr v) \<longleftrightarrow>
     (case v of JStr s \<Rightarrow> markdown_text md s = s | _ \<Rightarrow> False)"
proof (cases "\<exists>s. v = JStr s")
  case True
  then obtain s where "v = JStr s" by blast
  then show ?thesis by (simp add: hydrate_text)
next
  case False
  then have n: "\<And>s. v \<noteq> JStr s" by blast
  from hydrate_text_other[OF this, of md] n show ?thesis by (cases v) auto
qed

lemma roundtrip_option:
  "(if falsy v then Inr JUndefined
    else if falsy (get_or_self (key_to_name voc) v) then Inr JUndefined
    else Inr (case voc of None \<Rightarrow> get_or_self (key_to_name voc) v
              | Some ps \<Rightarrow> get_or_self (name_to_key voc) (get_or_self (key_to_name voc) v)))
     = (Inr v :: error + jsval)
   \<longleftrightarrow> selectable voc v"
proof (cases "falsy v")
  case True
  then show ?thesis by (auto simp: selectable_def truthy_conv)
next
  case False
  then have u: "v \<noteq> JUndefined" by auto
  show ?thesis
  proof (cases voc)
    case None
    with False u show ?thesis
      by (simp add: key_to_name_None get_or_self_empty selectable_def truthy_conv no_vocabulary)
  next
    case (Some ps)
    with False u show ?thesis
      using name_falsy[OF False, of ps] there_and_back[of ps v]
      by (auto simp: selectable_def truthy_conv)
  qed
qed

lemma roundtrip_select:
  assumes "kind f = Select opts"
  shows "(\<exists>p. dehydrateValue md f v = Inr (Some p) \<and> hydrateValue str p f = Inr v)
           \<longleftrightarrow> selectable (map_option option_pairs opts) v"
proof -
  let ?voc = "map_option option_pairs opts"
  have "(\<exists>p. dehydrateValue md f v = Inr (Some p) \<and> hydrateValue str p f = Inr v) \<longleftrightarrow>
    (if falsy v then Inr JUndefined
     else if falsy (get_or_self (key_to_name ?voc) v) then Inr JUndefined
     else Inr (case ?voc of None \<Rightarrow> get_or_self (key_to_name ?voc) v
              | Some ps \<Rightarrow> get_or_self (name_to_key ?voc) (get_or_self (key_to_name ?voc) v)))
     = (Inr v :: error + jsval)"
    using assms
    by (cases opts)
       (auto simp: dehydrateValue_def hydrateValue_def buildKeyToNameMap_conv
          buildNameToKeyMap_conv)
  then show ?thesis by (simp only: roundtrip_option)
qed

lemma roundtrip_status:
  assumes "kind f = Status gs"
  shows "(\<exists>p. dehydrateValue md f v = Inr (Some p) \<and> hydrateValue str p f = Inr v)
           \<longleftrightarrow> selectable (map_option status_pairs gs) v"
proof -
  let ?voc = "map_option status_pairs gs"
  have "(\<exists>p. dehydrateValue md f v = Inr (Some p) \<and> hydrateValue str p f = Inr v) \<longleftrightarrow>
    (if falsy v then Inr JUndefined
     else if falsy (get_or_self (key_to_name ?voc) v) then Inr JUndefined
     else Inr (case ?voc of None \<Rightarrow> get_or_self (key_to_name ?voc) v
              | Some ps \<Rightarrow> get_or_self (name_to_key ?voc) (get_or_self (key_to_name ?voc) v)))
     = (Inr v :: error + jsval)"
    using assms
    by (cases gs)
       (auto simp: dehydrateValue_def hydrateValue_def buildStatusKeyToNameMap_conv
          buildStatusNameToKeyMap_conv)
  then show ?thesis by (simp only: roundtrip_option)
qed

lemma map_id_iff: "map h xs = xs \<longleftrightarrow> list_all (\<lambda>x. h x = x) xs"
  by (induction xs) simp_all

lemma roundtrip_multi_select:
  assumes "kind f = MultiSelect opts"
  shows "(\<exists>p. dehydrateValue md f v = Inr (Some p) \<and> hydrateValue str p f = Inr v)
           \<longleftrightarrow> (case v of JArr xs \<Rightarrow> list_all (comes_back (map_option option_pairs opts)) xs
                | _ \<Rightarrow> False)"
proof (cases "\<exists>xs. v = JArr xs")
  case False
  with assms show ?thesis by (cases v) (simp_all add: dehydrateValue_def)
next
  case True
  then obtain xs where v: "v = JArr xs" by blast
  show ?thesis
  proof (cases opts)
    case None
    have "map (get_or_self Map.empty) xs = xs"
      by (rule map_idI) (rule get_or_self_empty)
    with None assms v show ?thesis
      by (simp add: dehydrateValue_def hydrateValue_def buildKeyToNameMap_conv
            key_to_name_None no_vocabulary list_all_iff)
  next
    case (Some os)
    have "map (\<lambda>x. get_or_self (name_to_key (Some (option_pairs os)))
                    (get_or_self (key_to_name (Some (option_pairs os))) x)) xs = xs
          \<longleftrightarrow> list_all (comes_back (Some (option_pairs os))) xs"
      by (simp add: map_id_iff there_and_back)
    with Some assms v show ?thesis
      by (simp add: dehydrateValue_def hydrateValue_def buildKeyToNameMap_conv
            buildNameToKeyMap_conv comp_def)
  qed
qed

text \<open>
  Claim C2, as amended. A field of a hydrate-only type (formula, rollup, created time,
  created by, last edited time, last edited by, unique id, files) is not written:
  \<open>dehydrateValue\<close> returns \<open>undefined\<close> and does not throw. For every field and every
  value \<open>v\<close>, \<open>dehydrateValue\<close> returns a property value that \<open>hydrateValue\<close> reads
  back as \<open>v\<close> exactly when \<open>v\<close> is one of these values. For number, date, checkbox,
  url, email and phone number: any value, \<open>null\<close> and \<open>undefined\<close> included. For
  relation and people: any list. For select and status: \<open>undefined\<close>, or a truthy
  value that, when it is a string and the field has a vocabulary, has a display name
  that is not empty and whose key is the value itself. For multi-select: a list whose
  strings, when the field has a vocabulary, are the keys of their own display names. For
  title and rich text: a string that is the text of its own markdown tree.
\<close>

theorem codec_roundtrip:
  "(ftype f \<in> HYDRATE_ONLY \<longrightarrow> dehydrateValue md f v = Inr None)
   \<and> ((\<exists>p. dehydrateValue md f v = Inr (Some p) \<and> hydrateValue str p f = Inr v)
        \<longleftrightarrow> representative md (kind f) v)"
proof
  show "ftype f \<in> HYDRATE_ONLY \<longrightarrow> dehydrateValue md f v = Inr None"
    by (cases "kind f") (simp_all add: ftype_def HYDRATE_ONLY_def dehydrateValue_def)
next
  show "(\<exists>p. dehydrateValue md f v = Inr (Some p) \<and> hydrateValue str p f = Inr v)
        \<longleftrightarrow> representative md (kind f) v"
  proof (cases "kind f")
    case Title
    then show ?thesis
      using roundtrip_text[of md v] by (simp add: dehydrateValue_def hydrateValue_def)
  next
    case RichText
    then show ?thesis
      using roundtrip_text[of md v] by (simp add: dehydrateValue_def hydrateValue_def)
  next
    case (Select opts)
    then show ?thesis by (simp add: roundtrip_select)
  next
    case (Status gs)
    then show ?thesis by (simp add: roundtrip_status)
  next
    case (MultiSelect opts)
    then show ?thesis by (simp add: roundtrip_multi_select)
  next
    case (RelationSingle ds)
    then show ?thesis by (cases v) (simp_all add: dehydrateValue_def hydrateValue_def)
  next
    case (RelationDual ds a b)
    then show ?thesis by (cases v) (simp_all add: dehydrateValue_def hydrateValue_def)
  next
    case People
    then show ?thesis by (cases v) (simp_all add: dehydrateValue_def hydrateValue_def)
  qed (simp_all add: dehydrateValue_def hydrateValue_def)
qed

text \<open>
  Instances, with a parser that returns a string without markup as one paragraph of one
  text node: a formula field is not written; a plain title, a declared select key and
  \<open>null\<close> for a number come back; the first of two select keys that share a display
  name does not.
\<close>

theorem codec_roundtrip_witness:
  "ftype \<lparr>label = ''Total'', fid = None, kind = Formula ''1 + 1''\<rparr> \<in> HYDRATE_ONLY
   \<and> dehydrateValue (\<lambda>s. [MdParagraph [MdText s]])
        \<lparr>label = ''Total'', fid = None, kind = Formula ''1 + 1''\<rparr> (JNum (Finite 2)) = Inr None
   \<and> representative (\<lambda>s. [MdParagraph [MdText s]]) Title (JStr ''Hello'')
   \<and> (\<exists>p. dehydrateValue (\<lambda>s. [MdParagraph [MdText s]])
             \<lparr>label = ''Name'', fid = None, kind = Title\<rparr> (JStr ''Hello'') = Inr (Some p)
          \<and> hydrateValue (\<lambda>n. ''0'') p \<lparr>label = ''Name'', fid = None, kind = Title\<rparr>
              = Inr (JStr ''Hello''))
   \<and> representative (\<lambda>s. [MdParagraph [MdText s]])
        (Select (Some (OptionRecord [(''low'', OptionLabel ''Low''), (''high'', OptionLabel ''High'')])))
        (JStr ''low'')
   \<and> (\<exists>p. dehydrateValue (\<lambda>s. [MdParagraph [MdText s]])
             \<lparr>label = ''Priority'', fid = None,
              kind = Select (Some (OptionRecord [(''low'', OptionLabel ''Low''),
                                                 (''high'', OptionLabel ''High'')]))\<rparr>
             (JStr ''low'') = Inr (Some p)
          \<and> hydrateValue (\<lambda>n. ''0'') p
              \<lparr>label = ''Priority'', fid = None,
               kind = Select (Some (OptionRecord [(''low'', OptionLabel ''Low''),
                                                  (''high'', OptionLabel ''High'')]))\<rparr>
              = Inr (JStr ''low''))
   \<and> representative (\<lambda>s. [MdParagraph [MdText s]]) (Number None) JNull
   \<and> (\<exists>p. dehydrateValue (\<lambda>s. [MdParagraph [MdText s]])
             \<lparr>label = ''Age'', fid = None, kind = Number None\<rparr> JNull = Inr (Some p)
          \<and> hydrateValue (\<lambda>n. ''0'') p \<lparr>label = ''Age'', fid = None, kind = Number None\<rparr>
              = Inr JNull)
   \<and> \<not> representative (\<lambda>s. [MdParagraph [MdText s]])
        (Select (Some (OptionRecord [(''low'', OptionLabel ''Low''), (''lo'', OptionLabel ''Low'')])))
        (JStr ''low'')
   \<and> \<not> (\<exists>p. dehydrateValue (\<lambda>s. [MdParagraph [MdText s]])
             \<lparr>label = ''Priority'', fid = None,
              kind = Select (Some (OptionRecord [(''low'', OptionLabel ''Low''),
                                                 (''lo'', OptionLabel ''Low'')]))\<rparr>
             (JStr ''low'') = Inr (Some p)
          \<and> hydrateValue (\<lambda>n. ''0'') p
              \<lparr>label = ''Priority'', fid = None,
               kind = Select (Some (OptionRecord [(''low'', OptionLabel ''Low''),
                                                  (''lo'', OptionLabel ''Low'')]))\<rparr>
              = Inr (JStr ''low''))"
proof -
  let ?md = "\<lambda>s::string. [MdParagraph [MdText s]]"
  let ?str = "\<lambda>n::jsnum. ''0''"
  let ?formula = "\<lparr>label = ''Total'', fid = None, kind = Formula ''1 + 1''\<rparr>"
  let ?title = "\<lparr>label = ''Name'', fid = None, kind = Title\<rparr>"
  let ?opts = "Some (OptionRecord [(''low'', OptionLabel ''Low''), (''high'', OptionLabel ''High'')])"
  let ?select = "\<lparr>label = ''Priority'', fid = None, kind = Select ?opts\<rparr>"
  let ?dup = "Some (OptionRecord [(''low'', OptionLabel ''Low''), (''lo'', OptionLabel ''Low'')])"
  let ?twice = "\<lparr>label = ''Priority'', fid = None, kind = Select ?dup\<rparr>"
  let ?number = "\<lparr>label = ''Age'', fid = None, kind = Number None\<rparr>"
  note voc = selectable_def named_def comes_back_def display_name_def local_key_def
    option_pairs_def option_name_def
  have h: "ftype ?formula \<in> HYDRATE_ONLY" by (simp add: ftype_def HYDRATE_ONLY_def)
  have t: "representative ?md (kind ?title) (JStr ''Hello'')"
    by (simp add: markdown_text_def paragraphs_of_def map_filter_simps)
  have s: "representative ?md (kind ?select) (JStr ''low'')" by (simp add: voc)
  have n: "representative ?md (kind ?number) JNull" by simp
  have d: "\<not> representative ?md (kind ?twice) (JStr ''low'')" by (simp add: voc)
  from codec_roundtrip[of ?formula ?md "JNum (Finite 2)" ?str] h
  have 1: "dehydrateValue ?md ?formula (JNum (Finite 2)) = Inr None" by blast
  from codec_roundtrip[of ?title ?md "JStr ''Hello''" ?str] t
  have 2: "\<exists>p. dehydrateValue ?md ?title (JStr ''Hello'') = Inr (Some p)
             \<and> hydrateValue ?str p ?title = Inr (JStr ''Hello'')" by blast
  from codec_roundtrip[of ?select ?md "JStr ''low''" ?str] s
  have 3: "\<exists>p. dehydrateValue ?md ?select (JStr ''low'') = Inr (Some p)
             \<and> hydrateValue ?str p ?select = Inr (JStr ''low'')" by blast
  from codec_roundtrip[of ?number ?md JNull ?str] n
  have 4: "\<exists>p. dehydrateValue ?md ?number JNull = Inr (Some p)
             \<and> hydrateValue ?str p ?number = Inr JNull" by blast
  from codec_roundtrip[of ?twice ?md "JStr ''low''" ?str] d
  have 5: "\<not> (\<exists>p. dehydrateValue ?md ?twice (JStr ''low'') = Inr (Some p)
             \<and> hydrateValue ?str p ?twice = Inr (JStr ''low''))" by blast
  from t s n d have t': "representative ?md Title (JStr ''Hello'')"
    and s': "representative ?md (Select ?opts) (JStr ''low'')"
    and n': "representative ?md (Number None) JNull"
    and d': "\<not> representative ?md (Select ?dup) (JStr ''low'')" by simp_all
  from h 1 t' 2 s' 3 n' 4 d' 5 show ?thesis by blast
qed

text \<open>
  A select value \<open>null\<close> is written as the explicit empty selection and read back as
  \<open>undefined\<close>. When two keys of the vocabulary share a display name, the first key is
  read back as the second. And the title \<open>Hello **World**\<close>, with the tree that the
  parser returns for it (a paragraph of the text \<open>Hello \<close> and the strong text
  \<open>World\<close>), is written as the two rich text objects that the documentation of
  \<open>toRichText\<close> shows and read back as \<open>Hello World\<close>.
\<close>

theorem codec_roundtrip_counterexample:
  "dehydrateValue (\<lambda>s. []) \<lparr>label = ''Priority'', fid = None, kind = Select None\<rparr> JNull
     = Inr (Some (P_select None))
   \<and> hydrateValue (\<lambda>n. ''0'') (P_select None)
       \<lparr>label = ''Priority'', fid = None, kind = Select None\<rparr> = Inr JUndefined
   \<and> dehydrateValue (\<lambda>s. [])
       \<lparr>label = ''Priority'', fid = None,
        kind = Select (Some (OptionRecord [(''low'', OptionLabel ''Low''),
                                           (''lo'', OptionLabel ''Low'')]))\<rparr>
       (JStr ''low'') = Inr (Some (P_select (Some (JStr ''Low''))))
   \<and> hydrateValue (\<lambda>n. ''0'') (P_select (Some (JStr ''Low'')))
       \<lparr>label = ''Priority'', fid = None,
        kind = Select (Some (OptionRecord [(''low'', OptionLabel ''Low''),
                                           (''lo'', OptionLabel ''Low'')]))\<rparr>
       = Inr (JStr ''lo'')
   \<and> dehydrateValue (\<lambda>s. [MdParagraph [MdText ''Hello '', MdStrong [MdText ''World'']]])
       \<lparr>label = ''Name'', fid = None, kind = Title\<rparr> (JStr ''Hello **World**'')
       = Inr (Some (P_title (JArr
           [JRichText (createRichText ''Hello '' None no_annotations),
            JRichText (createRichText ''World'' None (no_annotations\<lparr>p_bold := Some True\<rparr>))])))
   \<and> hydrateValue (\<lambda>n. ''0'')
       (P_title (JArr
           [JRichText (createRichText ''Hello '' None no_annotations),
            JRichText (createRichText ''World'' None (no_annotations\<lparr>p_bold := Some True\<rparr>))]))
       \<lparr>label = ''Name'', fid = None, kind = Title\<rparr>
       = Inr (JStr ''Hello World'')"
  by (simp add: dehydrateValue_def hydrateValue_def buildKeyToNameMap_def
        buildNameToKeyMap_def set_key_to_name_def set_name_to_key_def option_name_def
        get_or_self_def toRichText_def convertInlineNodes_def join_plain_text_def
        createRichText_def)

section \<open>restoreExpression\<close>

lemma strip_prefix_Some_iff: "strip_prefix p s = Some r \<longleftrightarrow> s = p @ r"
  by (induction p s rule: strip_prefix.induct) auto

text \<open>The matcher finds a reference at the head of a string, and nothing else.\<close>

lemma match_at_reference:
  assumes "is_reference p d b"
  shows "match_at (reference p d b @ rest) = Some (p, d, b, rest)"
proof -
  from assms have p: "p \<noteq> []" "CHR '':'' \<notin> set p" and d: "d \<noteq> []" "CHR '':'' \<notin> set d"
    and b: "b \<noteq> []" "CHR ''}'' \<notin> set b" by (simp_all add: is_reference_def)
  let ?r1 = "p @ CHR '':'' # d @ CHR '':'' # b @ CHR ''}'' # CHR ''}'' # rest"
  let ?r2 = "d @ CHR '':'' # b @ CHR ''}'' # CHR ''}'' # rest"
  let ?r3 = "b @ CHR ''}'' # CHR ''}'' # rest"
  have s: "strip_prefix BLOCK_PROPERTY_PREFIX (reference p d b @ rest) = Some ?r1"
    by (simp add: strip_prefix_Some_iff reference_def)
  from p(2) d(2) b(2) have np: "\<forall>x\<in>set p. x \<noteq> CHR '':''"
    and nd: "\<forall>x\<in>set d. x \<noteq> CHR '':''" and nb: "\<forall>x\<in>set b. x \<noteq> CHR ''}''"
    by blast+
  have t1: "takeWhile (\<lambda>c. c \<noteq> CHR '':'') ?r1 = p"
    and d1: "dropWhile (\<lambda>c. c \<noteq> CHR '':'') ?r1 = CHR '':'' # ?r2"
    using np by simp_all
  have t2: "takeWhile (\<lambda>c. c \<noteq> CHR '':'') ?r2 = d"
    and d2: "dropWhile (\<lambda>c. c \<noteq> CHR '':'') ?r2 = CHR '':'' # ?r3"
    using nd by simp_all
  have t3: "takeWhile (\<lambda>c. c \<noteq> CHR ''}'') ?r3 = b"
    and d3: "dropWhile (\<lambda>c. c \<noteq> CHR ''}'') ?r3 = CHR ''}'' # CHR ''}'' # rest"
    using nb by simp_all
  show ?thesis
    unfolding match_at_def s option.case Let_def t1 d1 list.case t2 d2 t3 d3
    using p(1) d(1) b(1) by simp
qed

lemma run_and_stop:
  assumes "dropWhile (\<lambda>c. c \<noteq> x) xs = y # ys"
  shows "xs = takeWhile (\<lambda>c. c \<noteq> x) xs @ x # ys \<and> x \<notin> set (takeWhile (\<lambda>c. c \<noteq> x) xs)"
proof -
  from assms have yx: "y = x" by (simp add: dropWhile_eq_Cons_conv)
  have "takeWhile (\<lambda>c. c \<noteq> x) xs @ dropWhile (\<lambda>c. c \<noteq> x) xs = xs" by simp
  with assms yx have "takeWhile (\<lambda>c. c \<noteq> x) xs @ x # ys = xs" by simp
  moreover have "x \<notin> set (takeWhile (\<lambda>c. c \<noteq> x) xs)"
    using set_takeWhileD by fastforce
  ultimately show ?thesis by simp
qed

lemma match_at_SomeD:
  assumes "match_at s = Some (p, d, b, rest)"
  shows "is_reference p d b \<and> s = reference p d b @ rest"
proof -
  let ?colon = "\<lambda>c. c \<noteq> CHR '':''"
  let ?brace = "\<lambda>c. c \<noteq> CHR ''}''"
  from assms obtain r1 where r1: "strip_prefix BLOCK_PROPERTY_PREFIX s = Some r1"
    by (cases "strip_prefix BLOCK_PROPERTY_PREFIX s") (simp_all add: match_at_def)
  from assms r1 have g1: "takeWhile ?colon r1 \<noteq> []"
    by (auto simp: match_at_def Let_def split: if_splits)
  from assms r1 g1 obtain x1 r2 where r2: "dropWhile ?colon r1 = x1 # r2"
    by (cases "dropWhile ?colon r1") (simp_all add: match_at_def Let_def)
  from assms r1 g1 r2 have g2: "takeWhile ?colon r2 \<noteq> []"
    by (auto simp: match_at_def Let_def split: if_splits)
  from assms r1 g1 r2 g2 obtain x2 r3 where r3: "dropWhile ?colon r2 = x2 # r3"
    by (cases "dropWhile ?colon r2") (simp_all add: match_at_def Let_def)
  from assms r1 g1 r2 g2 r3 have g3: "takeWhile ?brace r3 \<noteq> []"
    by (auto simp: match_at_def Let_def split: if_splits)
  from assms r1 g1 r2 g2 r3 g3
  have r4: "dropWhile ?brace r3 = CHR ''}'' # CHR ''}'' # rest"
    and groups: "p = takeWhile ?colon r1" "d = takeWhile ?colon r2" "b = takeWhile ?brace r3"
    by (auto simp: match_at_def Let_def dropWhile_eq_Cons_conv split: if_splits list.splits)
  from run_and_stop[OF r2] groups(1) have s1: "r1 = p @ CHR '':'' # r2" "CHR '':'' \<notin> set p"
    by simp_all
  from run_and_stop[OF r3] groups(2) have s2: "r2 = d @ CHR '':'' # r3" "CHR '':'' \<notin> set d"
    by simp_all
  from run_and_stop[OF r4] groups(3)
  have s3: "r3 = b @ CHR ''}'' # CHR ''}'' # rest" "CHR ''}'' \<notin> set b"
    by simp_all
  from r1 have "s = BLOCK_PROPERTY_PREFIX @ r1" by (simp add: strip_prefix_Some_iff)
  with s1(1) s2(1) s3(1) have "s = reference p d b @ rest" by (simp add: reference_def)
  moreover from g1 g2 g3 groups s1(2) s2(2) s3(2) have "is_reference p d b"
    by (simp add: is_reference_def)
  ultimately show ?thesis by simp
qed

lemma begins_reference_iff [code]: "begins_reference s \<longleftrightarrow> match_at s \<noteq> None"
proof
  assume "begins_reference s"
  then obtain p d b rest where "is_reference p d b" "s = reference p d b @ rest"
    by (auto simp: begins_reference_def)
  then show "match_at s \<noteq> None" by (simp add: match_at_reference)
next
  assume "match_at s \<noteq> None"
  then obtain p d b rest where "match_at s = Some (p, d, b, rest)"
    by (cases "match_at s") auto
  from match_at_SomeD[OF this] show "begins_reference s"
    by (auto simp: begins_reference_def)
qed

section \<open>restoreExpression: the scan\<close>

lemma replace_from_skip: "replace_from f n s = replace_from f 0 (drop n s)"
proof (induction s arbitrary: n)
  case Nil
  then show ?case by simp
next
  case (Cons c cs)
  then show ?case by (cases n) simp_all
qed

lemma scan_text:
  "outside t follow \<Longrightarrow> replace_from f 0 (t @ follow) = t @ replace_from f 0 follow"
proof (induction t)
  case Nil
  then show ?case by simp
next
  case (Cons c cs)
  from Cons.prems have "\<not> begins_reference (c # cs @ follow)" and rest: "outside cs follow"
    by simp_all
  then have "match_at (c # cs @ follow) = None" by (simp only: begins_reference_iff not_not)
  with Cons.IH[OF rest] show ?case by simp
qed

lemma scan_reference:
  assumes "is_reference p d b"
  shows "replace_from f 0 (reference p d b @ rest)
           = f (reference p d b) p d b @ replace_from f 0 rest"
proof -
  obtain cs where cs: "reference p d b = CHR ''{'' # cs"
    by (simp add: reference_def BLOCK_PROPERTY_PREFIX_def)
  have m: "match_at (CHR ''{'' # cs @ rest) = Some (p, d, b, rest)"
    using match_at_reference[OF assms, of rest] cs by simp
  have "replace_from f 0 (CHR ''{'' # cs @ rest)
          = f (take (length (CHR ''{'' # cs @ rest) - length rest) (CHR ''{'' # cs @ rest)) p d b
            @ replace_from f (length (cs @ rest) - length rest) (cs @ rest)"
    using m by simp
  also have "take (length (CHR ''{'' # cs @ rest) - length rest) (CHR ''{'' # cs @ rest)
               = CHR ''{'' # cs" by simp
  also have "replace_from f (length (cs @ rest) - length rest) (cs @ rest)
               = replace_from f 0 rest"
    by (subst replace_from_skip) simp
  finally show ?thesis by (simp add: cs)
qed

text \<open>Every expression is a sequence of references and of texts outside them.\<close>

lemma expression_decomposed: "\<exists>pieces tail. e = embed pieces tail \<and> decomposed pieces tail"
proof (induction e rule: length_induct)
  case (1 e)
  show ?case
  proof (cases e)
    case Nil
    have "[] = embed [] [] \<and> decomposed [] []" by simp
    with Nil show ?thesis by blast
  next
    case (Cons c cs)
    show ?thesis
    proof (cases "begins_reference e")
      case True
      then obtain p d b rest where r: "is_reference p d b" and e: "e = reference p d b @ rest"
        by (auto simp: begins_reference_def)
      have "length (reference p d b) > 0" by (simp add: reference_def)
      with e have "length rest < length e" by simp
      with 1 obtain ps tl where "rest = embed ps tl" "decomposed ps tl" by blast
      with r e have "e = embed (([], p, d, b) # ps) tl \<and> decomposed (([], p, d, b) # ps) tl"
        by simp
      then show ?thesis by blast
    next
      case False
      from Cons have "length cs < length e" by simp
      with 1 obtain ps tl where cs: "cs = embed ps tl" and dec: "decomposed ps tl" by blast
      show ?thesis
      proof (cases ps)
        case Nil
        with cs dec False Cons have "e = embed [] (c # tl) \<and> decomposed [] (c # tl)" by simp
        then show ?thesis by blast
      next
        case (Cons x xs)
        obtain t p d b where x: "x = (t, p, d, b)" by (cases x)
        from cs dec False \<open>e = c # cs\<close> Cons x
        have "e = embed ((c # t, p, d, b) # xs) tl \<and> decomposed ((c # t, p, d, b) # xs) tl"
          by simp
        then show ?thesis by blast
      qed
    qed
  qed
qed

section \<open>restoreExpression: the lookup\<close>

lemma encodedIdToKey_conv:
  "encodedIdToKey enc schema' p = key_of_encoded_id enc schema' p"
proof (induction schema' rule: rev_induct)
  case Nil
  then show ?case by (simp add: encodedIdToKey_def key_of_encoded_id_def)
next
  case (snoc e es)
  obtain k f where e: "e = (k, f)" by (cases e)
  have "encodedIdToKey enc (es @ [e]) =
          (if truthy_str (fid f) then (encodedIdToKey enc es)(enc (the (fid f)) \<mapsto> k)
           else encodedIdToKey enc es)"
    by (simp add: encodedIdToKey_def e)
  with snoc show ?case by (simp add: key_of_encoded_id_def e)
qed

lemma replacer_conv:
  "(if d \<noteq> ds then reference p d b
    else (case encodedIdToKey enc schema' p of
            None \<Rightarrow> reference p d b
          | Some schemaKey \<Rightarrow>
              if schemaKey = [] then reference p d b else prop_call schemaKey))
   = restore_reference enc ds schema' p d b"
  by (simp add: restore_reference_def encodedIdToKey_conv)

text \<open>
  Claim C7, as amended. Every expression is, read from the left, a sequence of
  references and of texts outside them. \<open>restoreExpression\<close> keeps every text and
  replaces each reference whose data source is the given one and whose encoded property
  id is the encoded id of a schema field by \<open>prop("key")\<close> with that field's key,
  unless the key is the empty string; it keeps every other reference. When no reference
  has the given data source, the expression is returned unchanged.
\<close>

theorem restoreExpression_references:
  "(decomposed pieces tail \<longrightarrow>
      restoreExpression enc (embed pieces tail) ds schema' = restored enc ds schema' pieces tail)
   \<and> (decomposed pieces tail \<and> list_all (\<lambda>(t, p, d, b). d \<noteq> ds) pieces \<longrightarrow>
        restoreExpression enc (embed pieces tail) ds schema' = embed pieces tail)
   \<and> (\<exists>ps tl. e = embed ps tl \<and> decomposed ps tl)"
proof -
  define f where "f = (\<lambda>match encodedPropertyId referenceDataSourceId (blockId::string).
          if referenceDataSourceId \<noteq> ds then match
          else (case encodedIdToKey enc schema' encodedPropertyId of
                  None \<Rightarrow> match
                | Some schemaKey \<Rightarrow>
                    if schemaKey = [] then match
                    else prop_call schemaKey))"
  have re: "restoreExpression enc x ds schema' = replace_from f 0 x" for x
    unfolding restoreExpression_def replaceAll_def f_def prop_call_def by (rule refl)
  have fr: "f (reference p d b) p d b = restore_reference enc ds schema' p d b" for p d b
    unfolding f_def by (rule replacer_conv)
  have main: "replace_from f 0 (embed pieces tail) = restored enc ds schema' pieces tail"
    if "decomposed pieces tail"
    using that
  proof (induction pieces)
    case Nil
    then have "outside tail []" by simp
    from scan_text[OF this, of f] show ?case by simp
  next
    case (Cons x xs)
    obtain t p d b where x: "x = (t, p, d, b)" by (cases x)
    from Cons.prems x have t: "outside t (reference p d b @ embed xs tail)"
      and r: "is_reference p d b" and xs: "decomposed xs tail"
      by simp_all
    have "replace_from f 0 (t @ reference p d b @ embed xs tail)
            = t @ replace_from f 0 (reference p d b @ embed xs tail)"
      by (rule scan_text[OF t])
    also have "replace_from f 0 (reference p d b @ embed xs tail)
            = f (reference p d b) p d b @ replace_from f 0 (embed xs tail)"
      by (rule scan_reference[OF r])
    finally show ?case using Cons.IH[OF xs] by (simp add: x fr)
  qed
  have same: "restored enc ds schema' pieces tail = embed pieces tail"
    if "list_all (\<lambda>(t, p, d, b). d \<noteq> ds) pieces"
    using that by (induction pieces) (auto simp: restore_reference_def)
  from main same expression_decomposed[of e] show ?thesis by (simp add: re)
qed

text \<open>
  The formula scenario of the specification: the schema has the field \<open>quantity\<close> with
  id \<open>p1\<close>, and the expression holds one reference to \<open>p1\<close> under the table \<open>T1\<close>,
  between two texts. And an expression in which an opening without an end comes before
  that reference: read from the left, the reference that begins there has the table
  \<open>block_property\<close>, and the expression is returned as it is.
\<close>

theorem restoreExpression_references_witness:
  \<open>decomposed [(''round('', ''p1'', ''T1'', ''b1'')] '' * 2)''
   \<and> restoreExpression (\<lambda>s. s) ''round({{notion:block_property:p1:T1:b1}} * 2)'' ''T1''
        [(''quantity'', \<lparr>label = ''Quantity'', fid = Some ''p1'', kind = Number None\<rparr>)]
      = ''round(prop("quantity") * 2)''
   \<and> restoreExpression (\<lambda>s. s) ''round({{notion:block_property:p1:T1:b1}} * 2)'' ''T2''
        [(''quantity'', \<lparr>label = ''Quantity'', fid = Some ''p1'', kind = Number None\<rparr>)]
      = ''round({{notion:block_property:p1:T1:b1}} * 2)''
   \<and> decomposed [([], ''a{{notion'', ''block_property'', ''p1:T1:b1'')] []
   \<and> restoreExpression (\<lambda>s. s)
        ''{{notion:block_property:a{{notion:block_property:p1:T1:b1}}'' ''T1''
        [(''quantity'', \<lparr>label = ''Quantity'', fid = Some ''p1'', kind = Number None\<rparr>)]
      = ''{{notion:block_property:a{{notion:block_property:p1:T1:b1}}''\<close>
proof -
  let ?S = "[(''quantity'', \<lparr>label = ''Quantity'', fid = Some ''p1'', kind = Number None\<rparr>)]"
  let ?pieces = "[(''round('', ''p1'', ''T1'', ''b1'')]"
  let ?tail = "'' * 2)''"
  let ?open = "[([], ''a{{notion'', ''block_property'', ''p1:T1:b1'')]"
  let ?enc = "\<lambda>s::string. s"
  have r: "is_reference ''p1'' ''T1'' ''b1''"
    and r': "is_reference ''a{{notion'' ''block_property'' ''p1:T1:b1''"
    by (simp_all add: is_reference_def)
  have nowhere: "strip_prefix BLOCK_PROPERTY_PREFIX s = None \<Longrightarrow> \<not> begins_reference s" for s
    by (simp add: begins_reference_iff match_at_def)
  have dec: "decomposed ?pieces ?tail"
    by (simp add: r nowhere BLOCK_PROPERTY_PREFIX_def)
  have dec': "decomposed ?open []" by (simp add: r')
  have e: "embed ?pieces ?tail = ''round({{notion:block_property:p1:T1:b1}} * 2)''"
    by (simp add: reference_def BLOCK_PROPERTY_PREFIX_def)
  have e': "embed ?open [] = ''{{notion:block_property:a{{notion:block_property:p1:T1:b1}}''"
    by (simp add: reference_def BLOCK_PROPERTY_PREFIX_def)
  have o: \<open>restored ?enc ''T1'' ?S ?pieces ?tail = ''round(prop("quantity") * 2)''\<close>
    by (simp add: restore_reference_def key_of_encoded_id_def prop_call_def truthy_str_def)
  have d: "list_all (\<lambda>(t, p, d, b). d \<noteq> ''T2'') ?pieces"
    and d': "list_all (\<lambda>(t, p, d, b). d \<noteq> ''T1'') ?open" by simp_all
  from restoreExpression_references[of ?pieces ?tail ?enc "''T1''" ?S "[]"] dec
  have 1: \<open>restoreExpression ?enc ''round({{notion:block_property:p1:T1:b1}} * 2)'' ''T1'' ?S
             = ''round(prop("quantity") * 2)''\<close>
    unfolding e o by blast
  from restoreExpression_references[of ?pieces ?tail ?enc "''T2''" ?S "[]"] dec d
  have 2: "restoreExpression ?enc ''round({{notion:block_property:p1:T1:b1}} * 2)'' ''T2'' ?S
             = ''round({{notion:block_property:p1:T1:b1}} * 2)''"
    unfolding e by blast
  from restoreExpression_references[of ?open "[]" ?enc "''T1''" ?S "[]"] dec' d'
  have 3: "restoreExpression ?enc
             ''{{notion:block_property:a{{notion:block_property:p1:T1:b1}}'' ''T1'' ?S
             = ''{{notion:block_property:a{{notion:block_property:p1:T1:b1}}''"
    unfolding e' by blast
  from dec 1 2 dec' 3 show ?thesis by blast
qed

text \<open>
  A schema whose field with the id \<open>p1\<close> has the empty string as its key: the reference
  to \<open>p1\<close> under the current table is left as it is. And an opening without an end
  before a reference to \<open>p1\<close> under the current table, with the key \<open>quantity\<close>: read
  from the left, the reference begins at the first opening and has the table
  \<open>block_property\<close>, and the expression is left as it is.
\<close>

theorem restoreExpression_references_counterexample:
  \<open>restoreExpression (\<lambda>s. s) ''{{notion:block_property:p1:T1:b1}}'' ''T1''
     [([], \<lparr>label = ''Quantity'', fid = Some ''p1'', kind = Number None\<rparr>)]
   = ''{{notion:block_property:p1:T1:b1}}''
   \<and> ''{{notion:block_property:p1:T1:b1}}'' \<noteq> ''prop("")''
   \<and> restoreExpression (\<lambda>s. s)
        ''{{notion:block_property:a{{notion:block_property:p1:T1:b1}}'' ''T1''
        [(''quantity'', \<lparr>label = ''Quantity'', fid = Some ''p1'', kind = Number None\<rparr>)]
      = ''{{notion:block_property:a{{notion:block_property:p1:T1:b1}}''
   \<and> ''{{notion:block_property:a{{notion:block_property:p1:T1:b1}}''
        \<noteq> ''{{notion:block_property:aprop("quantity")''\<close>
proof -
  let ?S = "[([], \<lparr>label = ''Quantity'', fid = Some ''p1'', kind = Number None\<rparr>)]"
  let ?Q = "[(''quantity'', \<lparr>label = ''Quantity'', fid = Some ''p1'', kind = Number None\<rparr>)]"
  have r: "is_reference ''p1'' ''T1'' ''b1''"
    and r': "is_reference ''a{{notion'' ''block_property'' ''p1:T1:b1''"
    by (simp_all add: is_reference_def)
  have e: "reference ''p1'' ''T1'' ''b1'' @ [] = ''{{notion:block_property:p1:T1:b1}}''"
    and e': "reference ''a{{notion'' ''block_property'' ''p1:T1:b1'' @ []
               = ''{{notion:block_property:a{{notion:block_property:p1:T1:b1}}''"
    by (simp_all add: reference_def BLOCK_PROPERTY_PREFIX_def)
  have k: "encodedIdToKey (\<lambda>s. s) ?S ''p1'' = Some []"
    by (simp add: encodedIdToKey_def truthy_str_def)
  have 1: "restoreExpression (\<lambda>s. s) (reference ''p1'' ''T1'' ''b1'' @ []) ''T1'' ?S
          = reference ''p1'' ''T1'' ''b1'' @ []"
    unfolding restoreExpression_def replaceAll_def scan_reference[OF r]
    by (simp add: k)
  have 2: "restoreExpression (\<lambda>s. s)
             (reference ''a{{notion'' ''block_property'' ''p1:T1:b1'' @ []) ''T1'' ?Q
          = reference ''a{{notion'' ''block_property'' ''p1:T1:b1'' @ []"
    unfolding restoreExpression_def replaceAll_def scan_reference[OF r']
    by simp
  from 1 2 show ?thesis unfolding e e' by simp
qed

end
